theory Spec2Isabelle
  imports Main "HOL-Library.Sublist"
begin

section \<open>JavaScript values, as far as the handler uses them\<close>

text \<open>
  The arguments of the handler's methods (\<open>masterIp\<close>, \<open>callbackUrl\<close>) are strings or
  absent. A string is a list of code units; the model keeps the code units below 256
  (\<^typ>\<open>char\<close>), which covers the ASCII configuration texts the handler works on.
\<close>

datatype jsval = Undefined | Null | Str string

text \<open>The value an exception carries: its constructor and its message.\<close>

datatype js_error = Error string | ReferenceError string

text \<open>\<open>ToBoolean\<close>: the test behind \<open>!x\<close>, \<open>x ? a : b\<close>, \<open>x && y\<close> and \<open>x || y\<close>.\<close>

fun ToBoolean :: "jsval \<Rightarrow> bool" where
  "ToBoolean Undefined = False"
| "ToBoolean Null = False"
| "ToBoolean (Str s) = (s \<noteq> [])"

text \<open>\<open>ToString\<close>: what a template literal and \<open>RegExp.prototype.exec\<close> make of a value.\<close>

fun ToString :: "jsval \<Rightarrow> string" where
  "ToString Undefined = ''undefined''"
| "ToString Null = ''null''"
| "ToString (Str s) = s"

fun typeof :: "jsval \<Rightarrow> string" where
  "typeof Undefined = ''undefined''"
| "typeof Null = ''object''"
| "typeof (Str s) = ''string''"

text \<open>\<open>a && b\<close> and \<open>c ? a : b\<close> on values.\<close>

definition js_and :: "jsval \<Rightarrow> jsval \<Rightarrow> jsval" where
  "js_and a b = (if ToBoolean a then b else a)"

section \<open>Regular expressions\<close>

subsection \<open>Character classes\<close>

definition is_line_terminator :: "char \<Rightarrow> bool" where
  "is_line_terminator c = (c = CHR 0x0A \<or> c = CHR 0x0D)"

text \<open>\<open>\s\<close>: white space and line terminators (the code units below 256 among them).\<close>

definition is_white_space :: "char \<Rightarrow> bool" where
  "is_white_space c =
     (c = CHR 0x09 \<or> c = CHR 0x0A \<or> c = CHR 0x0B \<or> c = CHR 0x0C \<or> c = CHR 0x0D
      \<or> c = CHR 0x20 \<or> c = CHR 0xA0)"

text \<open>The word characters of \<open>\b\<close>: letters, digits and the underscore.\<close>

definition is_word_char :: "char \<Rightarrow> bool" where
  "is_word_char c =
     (let n = (of_char c :: nat) in
      (97 \<le> n \<and> n \<le> 122) \<or> (65 \<le> n \<and> n \<le> 90) \<or> (48 \<le> n \<and> n \<le> 57) \<or> n = 95)"

datatype cclass =
    CChar char                \<comment> \<open>a literal character\<close>
  | CDot                      \<comment> \<open>\<open>.\<close>: anything but a line terminator\<close>
  | CSpace                    \<comment> \<open>\<open>\s\<close>\<close>
  | CUnion cclass cclass      \<comment> \<open>\<open>[ab]\<close>, and \<open>(?:a|b)\<close> on single characters\<close>

fun cclass_mem :: "cclass \<Rightarrow> char \<Rightarrow> bool" where
  "cclass_mem (CChar a) c = (c = a)"
| "cclass_mem CDot c = (\<not> is_line_terminator c)"
| "cclass_mem CSpace c = is_white_space c"
| "cclass_mem (CUnion A B) c = (cclass_mem A c \<or> cclass_mem B c)"

subsection \<open>Patterns\<close>

text \<open>
  The patterns of the source quantify single characters only (\<open>\s*\<close>, \<open>\s+\<close>, \<open>g?\<close>,
  \<open>.+\<close>, \<open>.*\<close>, \<open>[\s\n]*\<close>, \<open>(?:.|\n)*\<close>), so the quantifiers take a character class.
  All quantifiers of the source are greedy. \<open>Group n r\<close> is the capturing group whose
  capture is stored at position \<open>n\<close> of the capture list (group number \<open>n + 1\<close>).
\<close>

datatype regex =
    Eps
  | Atom cclass
  | Bol                       \<comment> \<open>\<open>^\<close> (no multiline flag)\<close>
  | WordB                     \<comment> \<open>\<open>\b\<close>\<close>
  | Seq regex regex
  | Alt regex regex
  | Opt cclass                \<comment> \<open>\<open>a?\<close>\<close>
  | Star cclass               \<comment> \<open>\<open>a*\<close>\<close>
  | Plus cclass               \<comment> \<open>\<open>a+\<close>\<close>
  | Group nat regex

fun lit :: "string \<Rightarrow> regex" where
  "lit [] = Eps"
| "lit [c] = Atom (CChar c)"
| "lit (c # cs) = Seq (Atom (CChar c)) (lit cs)"

subsection \<open>The backtracking matcher\<close>

text \<open>
  The matcher of the language definition is a backtracking matcher in continuation
  passing style: a pattern is matched against the input at a state, and the
  continuation decides whether what follows matches too; the first success wins.
  Here the continuation is the list of what is still to be matched.
  A state holds the end index, the character before it (for \<open>\b\<close>), the input that
  remains, and the captures as pairs of start and end index.
\<close>

record mstate =
  endIndex :: nat
  prev :: "char option"
  rest :: string
  caps :: "(nat \<times> nat) option list"

datatype frame = Match regex | Close nat nat

definition word_before :: "char option \<Rightarrow> bool" where
  "word_before p = (case p of None \<Rightarrow> False | Some c \<Rightarrow> is_word_char c)"

definition word_after :: "string \<Rightarrow> bool" where
  "word_after s = (case s of [] \<Rightarrow> False | c # _ \<Rightarrow> is_word_char c)"

definition step_char :: "mstate \<Rightarrow> char \<Rightarrow> string \<Rightarrow> mstate" where
  "step_char x c cs = x\<lparr>endIndex := Suc (endIndex x), prev := Some c, rest := cs\<rparr>"

fun rweight :: "regex \<Rightarrow> nat" where
  "rweight (Seq r1 r2) = Suc (rweight r1 + rweight r2)"
| "rweight (Alt r1 r2) = Suc (rweight r1 + rweight r2)"
| "rweight (Group n r) = Suc (Suc (rweight r))"
| "rweight (Plus A) = 3"
| "rweight (Opt A) = 2"
| "rweight _ = 1"

fun fweight :: "frame \<Rightarrow> nat" where
  "fweight (Match r) = rweight r"
| "fweight (Close n i) = 1"

function (sequential) bt :: "frame list \<Rightarrow> mstate \<Rightarrow> mstate option" where
  "bt [] x = Some x"
| "bt (Close n i # k) x = bt k (x\<lparr>caps := (caps x)[n := Some (i, endIndex x)]\<rparr>)"
| "bt (Match Eps # k) x = bt k x"
| "bt (Match (Atom A) # k) x =
     (case rest x of
        [] \<Rightarrow> None
      | c # cs \<Rightarrow> if cclass_mem A c then bt k (step_char x c cs) else None)"
| "bt (Match Bol # k) x = (if endIndex x = 0 then bt k x else None)"
| "bt (Match WordB # k) x =
     (if word_before (prev x) \<noteq> word_after (rest x) then bt k x else None)"
| "bt (Match (Seq r1 r2) # k) x = bt (Match r1 # Match r2 # k) x"
| "bt (Match (Alt r1 r2) # k) x =
     (case bt (Match r1 # k) x of Some y \<Rightarrow> Some y | None \<Rightarrow> bt (Match r2 # k) x)"
| "bt (Match (Opt A) # k) x =
     (case bt (Match (Atom A) # k) x of Some y \<Rightarrow> Some y | None \<Rightarrow> bt k x)"
| "bt (Match (Star A) # k) x =
     (case rest x of
        [] \<Rightarrow> bt k x
      | c # cs \<Rightarrow>
          if cclass_mem A c
          then (case bt (Match (Star A) # k) (step_char x c cs) of
                  Some y \<Rightarrow> Some y
                | None \<Rightarrow> bt k x)
          else bt k x)"
| "bt (Match (Plus A) # k) x = bt (Match (Atom A) # Match (Star A) # k) x"
| "bt (Match (Group n r) # k) x = bt (Match r # Close n (endIndex x) # k) x"
  by pat_completeness auto
termination
  by (relation "measures [\<lambda>(k, x). length (rest x), \<lambda>(k, x). sum_list (map fweight k)]")
     (auto simp: step_char_def)

subsection \<open>\<open>RegExp\<close> objects and \<open>exec\<close>\<close>

text \<open>
  The result of a match: where it starts, where it ends, and the captures. \<open>m[0]\<close> and
  \<open>m[n]\<close> are read off the input with these indices.
\<close>

record match_result =
  index :: nat
  lastEnd :: nat
  captures :: "(nat \<times> nat) option list"

text \<open>The search for the first start index at which the pattern matches.\<close>

fun search :: "regex \<Rightarrow> nat \<Rightarrow> nat \<Rightarrow> char option \<Rightarrow> string \<Rightarrow> match_result option" where
  "search r n i p s =
     (case bt [Match r] \<lparr>endIndex = i, prev = p, rest = s, caps = replicate n None\<rparr> of
        Some y \<Rightarrow> Some \<lparr>index = i, lastEnd = endIndex y, captures = caps y\<rparr>
      | None \<Rightarrow> (case s of [] \<Rightarrow> None | c # cs \<Rightarrow> search r n (Suc i) (Some c) cs))"

record regexp =
  source :: regex
  groups :: nat
  global :: bool

definition char_before :: "string \<Rightarrow> nat \<Rightarrow> char option" where
  "char_before S i = (if i = 0 then None else Some (S ! (i - 1)))"

text \<open>
  \<open>RegExpBuiltinExec\<close>: the match starts at \<open>lastIndex\<close> for a global pattern and at 0
  otherwise; a global pattern stores the end of the match in \<open>lastIndex\<close> and resets it
  to 0 on failure. The second component is the new \<open>lastIndex\<close>.
\<close>

definition RegExpBuiltinExec :: "regexp \<Rightarrow> nat \<Rightarrow> string \<Rightarrow> match_result option \<times> nat" where
  "RegExpBuiltinExec R lastIndex S =
     (let i = (if global R then lastIndex else 0) in
      if i > length S then (None, if global R then 0 else lastIndex)
      else case search (source R) (groups R) i (char_before S i) (drop i S) of
             None \<Rightarrow> (None, if global R then 0 else lastIndex)
           | Some m \<Rightarrow> (Some m, if global R then lastEnd m else lastIndex))"

definition substring :: "string \<Rightarrow> nat \<Rightarrow> nat \<Rightarrow> string" where
  "substring S i j = take (j - i) (drop i S)"

text \<open>\<open>m[0]\<close> and \<open>m[n + 1]\<close>; a group that took no part in the match is \<open>undefined\<close>.\<close>

definition match_text :: "string \<Rightarrow> match_result \<Rightarrow> string" where
  "match_text S m = substring S (index m) (lastEnd m)"

definition capture :: "string \<Rightarrow> match_result \<Rightarrow> nat \<Rightarrow> jsval" where
  "capture S m n =
     (case captures m ! n of None \<Rightarrow> Undefined | Some (i, j) \<Rightarrow> Str (substring S i j))"

subsection \<open>\<open>String.prototype.replace\<close> with a pattern and a replacement text\<close>

definition is_digit :: "char \<Rightarrow> bool" where
  "is_digit c = (let n = (of_char c :: nat) in 48 \<le> n \<and> n \<le> 57)"

definition digit_val :: "char \<Rightarrow> nat" where
  "digit_val c = of_char c - 48"

text \<open>The capture a \<open>$n\<close> refers to; \<open>undefined\<close> is replaced by the empty text.\<close>

definition capture_ref :: "jsval list \<Rightarrow> nat \<Rightarrow> string" where
  "capture_ref cs n = (case cs ! (n - 1) of Undefined \<Rightarrow> [] | v \<Rightarrow> ToString v)"

text \<open>
  \<open>GetSubstitution\<close>: the replacement text is a template in which \<open>$$\<close> stands for a
  dollar, \<open>$&\<close> for the matched text, \<open>$`\<close> and \<open>$'\<close> for the input before and after the
  match, and \<open>$n\<close>, \<open>$nn\<close> for a capture when the pattern has that many groups; any other
  \<open>$\<close> stands for itself.
\<close>

fun GetSubstitution :: "string \<Rightarrow> string \<Rightarrow> nat \<Rightarrow> jsval list \<Rightarrow> string \<Rightarrow> string" where
  "GetSubstitution matched str position cs [] = []"
| "GetSubstitution matched str position cs [c] = [c]"
| "GetSubstitution matched str position cs (c # d # t) =
     (if c \<noteq> CHR ''$'' then c # GetSubstitution matched str position cs (d # t)
      else if d = CHR ''$'' then CHR ''$'' # GetSubstitution matched str position cs t
      else if d = CHR ''&'' then matched @ GetSubstitution matched str position cs t
      else if d = CHR 0x60 then take position str @ GetSubstitution matched str position cs t
      else if d = CHR 0x27
        then drop (position + length matched) str @ GetSubstitution matched str position cs t
      else if is_digit d then
        (case t of
           [] \<Rightarrow>
             if 1 \<le> digit_val d \<and> digit_val d \<le> length cs
             then capture_ref cs (digit_val d) else [c, d]
         | e # t' \<Rightarrow>
             if is_digit e \<and> 1 \<le> 10 * digit_val d + digit_val e
                \<and> 10 * digit_val d + digit_val e \<le> length cs
             then capture_ref cs (10 * digit_val d + digit_val e)
                  @ GetSubstitution matched str position cs t'
             else if 1 \<le> digit_val d \<and> digit_val d \<le> length cs
             then capture_ref cs (digit_val d) @ GetSubstitution matched str position cs t
             else c # d # GetSubstitution matched str position cs t)
      else c # GetSubstitution matched str position cs (d # t))"

text \<open>
  The matcher only moves forward, and never beyond the input: the loop below that
  collects the matches of a global pattern terminates for this reason.
\<close>

lemma bt_endIndex:
  "bt k x = Some y \<Longrightarrow>
     endIndex x \<le> endIndex y \<and> endIndex y + length (rest y) = endIndex x + length (rest x)"
proof (induction k x arbitrary: y rule: bt.induct)
  case (4 A k x)
  show ?case
  proof (cases "rest x")
    case Nil
    with 4 show ?thesis by simp
  next
    case (Cons c cs)
    with 4(2) have m: "cclass_mem A c" and b: "bt k (step_char x c cs) = Some y"
      by (auto split: if_splits)
    from 4(1)[OF Cons m b] Cons show ?thesis
      by (auto simp: step_char_def)
  qed
next
  case (8 r1 r2 k x)
  then show ?case
    by (cases "bt (Match r1 # k) x") auto
next
  case (9 A k x)
  then show ?case
    by (cases "bt (Match (Atom A) # k) x") auto
next
  case (10 A k x)
  show ?case
  proof (cases "rest x")
    case Nil
    with 10 show ?thesis by simp
  next
    case (Cons c cs)
    show ?thesis
    proof (cases "cclass_mem A c")
      case False
      with 10 Cons show ?thesis by simp
    next
      case True
      show ?thesis
      proof (cases "bt (Match (Star A) # k) (step_char x c cs)")
        case None
        with 10 Cons True show ?thesis by simp
      next
        case (Some z)
        with 10(5) Cons True have "z = y" by simp
        with 10(2)[OF Cons True] Some Cons show ?thesis
          by (auto simp: step_char_def)
      qed
    qed
  qed
qed (auto split: if_splits)

lemma search_bounds:
  "search r n i p s = Some m \<Longrightarrow>
     i \<le> index m \<and> index m \<le> lastEnd m \<and> lastEnd m \<le> i + length s"
proof (induction s arbitrary: i p)
  case Nil
  then show ?case
    by (auto split: option.splits dest: bt_endIndex)
next
  case (Cons c cs)
  show ?case
  proof (cases "bt [Match r] \<lparr>endIndex = i, prev = p, rest = c # cs, caps = replicate n None\<rparr>")
    case None
    with Cons.prems have "search r n (Suc i) (Some c) cs = Some m" by simp
    from Cons.IH[OF this] show ?thesis by simp
  next
    case (Some y)
    with Cons.prems have m: "m = \<lparr>index = i, lastEnd = endIndex y, captures = caps y\<rparr>" by simp
    from bt_endIndex[OF Some] show ?thesis by (simp add: m)
  qed
qed

lemma RegExpBuiltinExec_bounds:
  assumes "RegExpBuiltinExec R lastIndex S = (Some m, li)" and "global R"
  shows "lastIndex \<le> index m \<and> index m \<le> lastEnd m \<and> lastEnd m \<le> length S \<and> li = lastEnd m"
proof -
  from assms have le: "lastIndex \<le> length S"
    by (auto simp: RegExpBuiltinExec_def split: if_splits)
  from assms le have s: "search (source R) (groups R) lastIndex (char_before S lastIndex)
                           (drop lastIndex S) = Some m" and li: "li = lastEnd m"
    by (auto simp: RegExpBuiltinExec_def split: option.splits)
  from search_bounds[OF s] le li show ?thesis by simp
qed

text \<open>
  The loop of \<open>RegExp.prototype[Symbol.replace]\<close> that collects the matches: one match
  for a pattern that is not global; for a global pattern every match from \<open>lastIndex\<close>
  on, stepping over an empty match. The second component is the final \<open>lastIndex\<close>.
\<close>

function collect_matches :: "regexp \<Rightarrow> string \<Rightarrow> nat \<Rightarrow> match_result list \<times> nat" where
  "collect_matches R S lastIndex =
     (case RegExpBuiltinExec R lastIndex S of
        (None, li) \<Rightarrow> ([], li)
      | (Some m, li) \<Rightarrow>
          if \<not> global R then ([m], li)
          else (case collect_matches R S (if lastEnd m = index m then Suc li else li) of
                  (ms, lf) \<Rightarrow> (m # ms, lf)))"
  by pat_completeness auto
termination
  apply (relation "measure (\<lambda>(R, S, lastIndex). Suc (length S) - lastIndex)")
   apply simp
  apply (auto dest!: RegExpBuiltinExec_bounds[OF sym])
  done

text \<open>
  The text that replaces the matches: the input between the matches is kept, each
  match gives way to its substitution.
\<close>

fun splice :: "string \<Rightarrow> string \<Rightarrow> nat \<Rightarrow> match_result list \<Rightarrow> string" where
  "splice S replaceValue nextSourcePosition [] = drop nextSourcePosition S"
| "splice S replaceValue nextSourcePosition (m # ms) =
     (let position = index m;
          matched = match_text S m;
          replacement = GetSubstitution matched S position
                          (map (capture S m) [0..<length (captures m)]) replaceValue
      in if position \<ge> nextSourcePosition
         then substring S nextSourcePosition position @ replacement
              @ splice S replaceValue (position + length matched) ms
         else splice S replaceValue nextSourcePosition ms)"

text \<open>
  \<open>S.replace(R, replaceValue)\<close>: a global pattern starts from \<open>lastIndex = 0\<close>. The result
  is the new text and the new \<open>lastIndex\<close> of the pattern.
\<close>

definition replace :: "string \<Rightarrow> regexp \<Rightarrow> nat \<Rightarrow> string \<Rightarrow> string \<times> nat" where
  "replace S R lastIndex replaceValue =
     (case collect_matches R S (if global R then 0 else lastIndex) of
        (ms, li) \<Rightarrow> (splice S replaceValue 0 ms, li))"

section \<open>\<open>JSON.stringify\<close> on objects whose properties are strings or absent\<close>

definition hex_digit :: "nat \<Rightarrow> char" where
  "hex_digit n = (if n < 10 then char_of (48 + n) else char_of (87 + n))"

text \<open>
  \<open>QuoteJSONString\<close>: the quote and the backslash are escaped, the control characters
  are written \<open>\b\<close>, \<open>\t\<close>, \<open>\n\<close>, \<open>\f\<close>, \<open>\r\<close> or \<open>\u00XX\<close>.
\<close>

definition quote_code_unit :: "char \<Rightarrow> string" where
  "quote_code_unit c =
     (if c = CHR 0x08 then [CHR 0x5C, CHR ''b'']
      else if c = CHR 0x09 then [CHR 0x5C, CHR ''t'']
      else if c = CHR 0x0A then [CHR 0x5C, CHR ''n'']
      else if c = CHR 0x0C then [CHR 0x5C, CHR ''f'']
      else if c = CHR 0x0D then [CHR 0x5C, CHR ''r'']
      else if c = CHR 0x22 then [CHR 0x5C, CHR 0x22]
      else if c = CHR 0x5C then [CHR 0x5C, CHR 0x5C]
      else if (of_char c :: nat) < 32
        then [CHR 0x5C, CHR ''u'', CHR ''0'', CHR ''0'',
              hex_digit (of_char c div 16), hex_digit (of_char c mod 16)]
      else [c])"

definition QuoteJSONString :: "string \<Rightarrow> string" where
  "QuoteJSONString s = [CHR 0x22] @ concat (map quote_code_unit s) @ [CHR 0x22]"

text \<open>A property whose value is \<open>undefined\<close> is left out.\<close>

fun SerializeJSONProperty :: "jsval \<Rightarrow> string option" where
  "SerializeJSONProperty Undefined = None"
| "SerializeJSONProperty Null = Some ''null''"
| "SerializeJSONProperty (Str s) = Some (QuoteJSONString s)"

fun json_members :: "(string \<times> jsval) list \<Rightarrow> string list" where
  "json_members [] = []"
| "json_members ((k, v) # ps) =
     (case SerializeJSONProperty v of
        None \<Rightarrow> json_members ps
      | Some t \<Rightarrow> (QuoteJSONString k @ '':'' @ t) # json_members ps)"

fun join_comma :: "string list \<Rightarrow> string" where
  "join_comma [] = []"
| "join_comma [x] = x"
| "join_comma (x # y # zs) = x @ '','' @ join_comma (y # zs)"

definition JSON_stringify :: "(string \<times> jsval) list \<Rightarrow> string" where
  "JSON_stringify ps = ''{'' @ join_comma (json_members ps) @ ''}''"

section \<open>The cloud platform (\<open>core/cloud-platform.js\<close>)\<close>

text \<open>
  A platform is the set of capabilities the handler calls. The settings store is the
  part modelled here: \<open>getSettingItem\<close> reads a key in the store, \<open>setSettingItem\<close>
  returns the store after the write; either may throw.
\<close>

record ('s, 'v) CloudPlatform =
  getSettingItem :: "'s \<Rightarrow> string \<Rightarrow> js_error + 'v option"
  setSettingItem :: "'s \<Rightarrow> string \<Rightarrow> 'v \<Rightarrow> js_error + 's"

text \<open>The methods of the abstract class throw.\<close>

definition throwNotImplementedException :: "js_error + 'a" where
  "throwNotImplementedException = Inl (Error ''Not Implemented'')"

definition CloudPlatform_abstract :: "('s, 'v) CloudPlatform" where
  "CloudPlatform_abstract =
     \<lparr>getSettingItem = (\<lambda>store key. throwNotImplementedException),
      setSettingItem = (\<lambda>store key jsonValue. throwNotImplementedException)\<rparr>"

section \<open>The handler (\<open>core/autoscale-handler.js\<close>)\<close>

subsection \<open>The patterns of the module\<close>

text \<open>
  \<open>/(?:^|\n)\s*config?\s*system?\s*auto-scale[\s\n]*((?:.|\n)*)\bend\b/\<close>
\<close>

definition AUTOSCALE_SECTION_EXPR :: regexp where
  "AUTOSCALE_SECTION_EXPR =
     \<lparr>source =
        Seq (Alt Bol (Atom (CChar CHR 0x0A)))
       (Seq (Star CSpace)
       (Seq (lit ''confi'') (Seq (Opt (CChar CHR ''g''))
       (Seq (Star CSpace)
       (Seq (lit ''syste'') (Seq (Opt (CChar CHR ''m''))
       (Seq (Star CSpace)
       (Seq (lit ''auto-scale'')
       (Seq (Star (CUnion CSpace (CChar CHR 0x0A)))
       (Seq (Group 0 (Star (CUnion CDot (CChar CHR 0x0A))))
       (Seq WordB (Seq (lit ''end'') WordB)))))))))))),
      groups = 1, global = False\<rparr>"

text \<open>\<open>/(set\s+(?:psksecret|password)\s+).*/g\<close>\<close>

definition SET_SECRET_EXPR :: regexp where
  "SET_SECRET_EXPR =
     \<lparr>source =
        Seq (Group 0 (Seq (lit ''set'') (Seq (Plus CSpace)
               (Seq (Alt (lit ''psksecret'') (lit ''password'')) (Plus CSpace)))))
            (Star CDot),
      groups = 1, global = True\<rparr>"

text \<open>
  The patterns written where they are used are new objects at every evaluation:
  \<open>/\$\{CALLBACK_URL}/\<close> and \<open>/set\s+KEY\s+(.+)/\<close> for the three keys.
\<close>

definition CALLBACK_URL_EXPR :: regexp where
  "CALLBACK_URL_EXPR = \<lparr>source = lit ''${CALLBACK_URL}'', groups = 0, global = False\<rparr>"

definition field_expr :: "string \<Rightarrow> regexp" where
  "field_expr key =
     \<lparr>source = Seq (lit ''set'') (Seq (Plus CSpace) (Seq (lit key) (Seq (Plus CSpace)
                 (Group 0 (Plus CDot))))),
      groups = 1, global = False\<rparr>"

text \<open>
  The two patterns of the module are shared by all calls; what a call can leave behind
  in them is their \<open>lastIndex\<close>.
\<close>

record module_state =
  AUTOSCALE_SECTION_EXPR_lastIndex :: nat
  SET_SECRET_EXPR_lastIndex :: nat

subsection \<open>The class\<close>

record ('s, 'v) AutoscaleHandler =
  platform :: "('s, 'v) CloudPlatform"
  baseConfig :: string

text \<open>\<open>getMasterConfig(callbackUrl)\<close>\<close>

definition getMasterConfig :: "('s, 'v) AutoscaleHandler \<Rightarrow> jsval \<Rightarrow> string" where
  "getMasterConfig this callbackUrl =
     fst (replace (baseConfig this) CALLBACK_URL_EXPR 0 (ToString callbackUrl))"

text \<open>\<open>m && m[1]\<close> for the result \<open>m\<close> of \<open>exec\<close> on the text \<open>S\<close>.\<close>

definition and_group1 :: "string \<Rightarrow> match_result option \<Rightarrow> jsval" where
  "and_group1 S m = (case m of None \<Rightarrow> Null | Some r \<Rightarrow> capture S r 0)"

text \<open>
  \<open>autoScaleSectionMatch && autoScaleSectionMatch[1]\<close>, with the \<open>lastIndex\<close> of the
  section pattern before and after.
\<close>

definition autoScaleSection :: "string \<Rightarrow> nat \<Rightarrow> jsval \<times> nat" where
  "autoScaleSection config lastIndex =
     (case RegExpBuiltinExec AUTOSCALE_SECTION_EXPR lastIndex config of
        (autoScaleSectionMatch, li) \<Rightarrow> (and_group1 config autoScaleSectionMatch, li))"

text \<open>
  \<open>/set\s+KEY\s+(.+)/.exec(autoScaleSection)\<close> followed by \<open>m => m && m[1]\<close>; \<open>exec\<close>
  turns its argument into text, \<open>null\<close> into \<open>null\<close>.
\<close>

definition field_of :: "string \<Rightarrow> jsval \<Rightarrow> jsval" where
  "field_of key section =
     and_group1 (ToString section)
       (fst (RegExpBuiltinExec (field_expr key) 0 (ToString section)))"

text \<open>The template of the secondary configuration, with its five holes.\<close>

definition slave_config :: "string \<Rightarrow> string \<Rightarrow> string \<Rightarrow> string \<Rightarrow> string \<Rightarrow> string" where
  "slave_config syncInterface masterIp apiEndpoint pskSecret adminPort =
     ''\<newline>''
     @ ''                        config system auto-scale\<newline>''
     @ ''                            set status enable\<newline>''
     @ ''                            set sync-interface '' @ syncInterface @ ''\<newline>''
     @ ''                            set role slave\<newline>''
     @ ''                            set master-ip '' @ masterIp @ ''\<newline>''
     @ ''                            set callback-url '' @ apiEndpoint @ ''\<newline>''
     @ ''                            set psksecret '' @ pskSecret @ ''\<newline>''
     @ ''                        end\<newline>''
     @ ''                        config system dns\<newline>''
     @ ''                            unset primary\<newline>''
     @ ''                            unset secondary\<newline>''
     @ ''                        end\<newline>''
     @ ''                        config system global\<newline>''
     @ ''                            set admin-console-timeout 300\<newline>''
     @ ''                        end\<newline>''
     @ ''                        config system global\<newline>''
     @ ''                            set admin-sport '' @ adminPort @ ''\<newline>''
     @ ''                        end\<newline>''
     @ ''                    ''"

text \<open>\<open>config.replace(SET_SECRET_EXPR, '$1 *')\<close>\<close>

definition redact :: "string \<Rightarrow> nat \<Rightarrow> string \<times> nat" where
  "redact config lastIndex = replace config SET_SECRET_EXPR lastIndex ''$1 *''"

text \<open>
  \<open>getSlaveConfig(masterIp, callbackUrl)\<close>: the result is the text returned or the
  error thrown, and the state of the module's patterns after the call.
\<close>

definition getSlaveConfig ::
  "('s, 'v) AutoscaleHandler \<Rightarrow> module_state \<Rightarrow> jsval \<Rightarrow> jsval
     \<Rightarrow> (js_error + string) \<times> module_state" where
  "getSlaveConfig this g masterIp callbackUrl =
     (case autoScaleSection (baseConfig this) (AUTOSCALE_SECTION_EXPR_lastIndex g) of
        (section, li1) \<Rightarrow>
     (let g1 = g\<lparr>AUTOSCALE_SECTION_EXPR_lastIndex := li1\<rparr>;
          syncInterface = field_of ''sync-interface'' section;
          pskSecret = field_of ''psksecret'' section;
          adminPort = field_of ''admin-sport'' section;
          apiEndpoint = callbackUrl;
          config = slave_config
            (ToString (if ToBoolean syncInterface then syncInterface else Str ''port1''))
            (ToString masterIp)
            (ToString apiEndpoint)
            (ToString pskSecret)
            (ToString (if ToBoolean adminPort then adminPort else Str ''8443''));
          errorMessage0 = Undefined;
          errorMessage1 = (if \<not> ToBoolean apiEndpoint
                           then Str ''Api endpoint is missing'' else errorMessage0);
          errorMessage2 = (if \<not> ToBoolean masterIp
                           then Str ''Master ip is missing'' else errorMessage1);
          errorMessage = (if \<not> ToBoolean pskSecret
                          then Str ''psksecret is missing'' else errorMessage2)
      in if \<not> ToBoolean pskSecret \<or> \<not> ToBoolean apiEndpoint \<or> \<not> ToBoolean masterIp
         then (Inl (Error (''Base config is invalid ('' @ ToString errorMessage @ ''): ''
                 @ JSON_stringify
                     [(''syncInterface'', syncInterface),
                      (''apiEndpoint'', apiEndpoint),
                      (''masterIp'', masterIp),
                      (''pskSecret'', js_and pskSecret (Str (typeof pskSecret)))])), g1)
         else (case redact config (SET_SECRET_EXPR_lastIndex g1) of
                 (redacted, li2) \<Rightarrow> (Inr config, g1\<lparr>SET_SECRET_EXPR_lastIndex := li2\<rparr>))))"

text \<open>\<open>responseToHeartBeat(masterIp)\<close>\<close>

definition responseToHeartBeat :: "jsval \<Rightarrow> string" where
  "responseToHeartBeat masterIp =
     (let response = [];
          response = (if ToBoolean masterIp then response @ [(''master-ip'', masterIp)]
                      else response)
      in JSON_stringify response)"

text \<open>\<open>loadSettings()\<close> and \<open>saveSettings(desiredCapacity, minSize, maxSize)\<close>\<close>

record 'n settingValues =
  desiredCapacity :: 'n
  minSize :: 'n
  maxSize :: 'n

definition loadSettings ::
  "('s, 'n settingValues) AutoscaleHandler \<Rightarrow> 's \<Rightarrow> js_error + 'n settingValues option" where
  "loadSettings this store = getSettingItem (platform this) store ''auto-scaling-group''"

definition saveSettings ::
  "('s, 'n settingValues) AutoscaleHandler \<Rightarrow> 's \<Rightarrow> 'n \<Rightarrow> 'n \<Rightarrow> 'n \<Rightarrow> js_error + 's" where
  "saveSettings this store dc mn mx =
     (let settingValues = \<lparr>desiredCapacity = dc, minSize = mn, maxSize = mx\<rparr>
      in setSettingItem (platform this) store ''auto-scaling-group'' settingValues)"

text \<open>
  \<open>purgeMaster()\<close>: \<open>return await this.throwNotImplementedException() || asgName;\<close>.
  The right operand of \<open>||\<close> is evaluated only when the left one has returned a value
  that is not true; an identifier that is not bound throws a \<open>ReferenceError\<close>.
\<close>

definition js_or :: "js_error + jsval \<Rightarrow> js_error + jsval \<Rightarrow> js_error + jsval" where
  "js_or a b = (case a of Inl e \<Rightarrow> Inl e | Inr v \<Rightarrow> if ToBoolean v then Inr v else b)"

definition resolve_binding :: "(string \<rightharpoonup> jsval) \<Rightarrow> string \<Rightarrow> js_error + jsval" where
  "resolve_binding env x =
     (case env x of None \<Rightarrow> Inl (ReferenceError (x @ '' is not defined'')) | Some v \<Rightarrow> Inr v)"

definition purgeMaster :: "(string \<rightharpoonup> jsval) \<Rightarrow> js_error + jsval" where
  "purgeMaster env = js_or throwNotImplementedException (resolve_binding env ''asgName'')"

section \<open>What the patterns match\<close>

text \<open>
  The matcher returns the first success of a search through all the ways a pattern can
  match. \<open>paths k x y\<close> holds when one of these ways leads from the state \<open>x\<close>
  through everything in \<open>k\<close> to the state \<open>y\<close>.
\<close>

inductive paths :: "frame list \<Rightarrow> mstate \<Rightarrow> mstate \<Rightarrow> bool" where
  Done: "paths [] x x"
| CloseG: "paths k (x\<lparr>caps := (caps x)[n := Some (i, endIndex x)]\<rparr>) y \<Longrightarrow> paths (Close n i # k) x y"
| EpsP: "paths k x y \<Longrightarrow> paths (Match Eps # k) x y"
| AtomP: "rest x = c # cs \<Longrightarrow> cclass_mem A c \<Longrightarrow> paths k (step_char x c cs) y
          \<Longrightarrow> paths (Match (Atom A) # k) x y"
| BolP: "endIndex x = 0 \<Longrightarrow> paths k x y \<Longrightarrow> paths (Match Bol # k) x y"
| WordBP: "word_before (prev x) \<noteq> word_after (rest x) \<Longrightarrow> paths k x y
          \<Longrightarrow> paths (Match WordB # k) x y"
| SeqP: "paths (Match r1 # Match r2 # k) x y \<Longrightarrow> paths (Match (Seq r1 r2) # k) x y"
| AltL: "paths (Match r1 # k) x y \<Longrightarrow> paths (Match (Alt r1 r2) # k) x y"
| AltR: "paths (Match r2 # k) x y \<Longrightarrow> paths (Match (Alt r1 r2) # k) x y"
| OptTake: "paths (Match (Atom A) # k) x y \<Longrightarrow> paths (Match (Opt A) # k) x y"
| OptSkip: "paths k x y \<Longrightarrow> paths (Match (Opt A) # k) x y"
| StarTake: "rest x = c # cs \<Longrightarrow> cclass_mem A c \<Longrightarrow> paths (Match (Star A) # k) (step_char x c cs) y
          \<Longrightarrow> paths (Match (Star A) # k) x y"
| StarSkip: "paths k x y \<Longrightarrow> paths (Match (Star A) # k) x y"
| PlusP: "paths (Match (Atom A) # Match (Star A) # k) x y \<Longrightarrow> paths (Match (Plus A) # k) x y"
| GroupP: "paths (Match r # Close n (endIndex x) # k) x y \<Longrightarrow> paths (Match (Group n r) # k) x y"


text \<open>The state after the text \<open>w\<close> has been consumed.\<close>

definition advance :: "mstate \<Rightarrow> string \<Rightarrow> mstate" where
  "advance x w = x\<lparr>endIndex := endIndex x + length w,
                    prev := (if w = [] then prev x else Some (last w)),
                    rest := drop (length w) (rest x)\<rparr>"


text \<open>
  The text \<open>w\<close> is consumed from the state \<open>x\<close>, and the continuation \<open>k\<close> leads
  from there to \<open>y\<close>.
\<close>

definition run :: "mstate \<Rightarrow> string \<Rightarrow> frame list \<Rightarrow> mstate \<Rightarrow> bool" where
  "run x w k y \<longleftrightarrow> prefix w (rest x) \<and> paths k (advance x w) y"


text \<open>The state in which the search tries the position after the prefix \<open>a\<close> of the text.\<close>

definition state_at :: "nat \<Rightarrow> nat \<Rightarrow> char option \<Rightarrow> string \<Rightarrow> string \<Rightarrow> mstate" where
  "state_at n i p a b =
     \<lparr>endIndex = i + length a, prev = (if a = [] then p else Some (last a)), rest = b,
      caps = replicate n None\<rparr>"


text \<open>
  The texts the field pattern \<open>/set\s+KEY\s+(.+)/\<close> of the handler matches, at the
  start of a text and somewhere in a text: the letters \<open>set\<close>, white space, the key,
  white space, and at least one character that is not a line terminator. This is the
  pattern of the code read as a predicate, not the \<open>set\<close> line of the specification:
  the letters need not start a word or a line, and the white space may run over line
  ends.
\<close>

definition field_at :: "string \<Rightarrow> string \<Rightarrow> string \<Rightarrow> string \<Rightarrow> string \<Rightarrow> bool" where
  "field_at key w1 w2 v t \<longleftrightarrow>
     prefix (''set'' @ w1 @ key @ w2 @ v) t
     \<and> w1 \<noteq> [] \<and> (\<forall>c\<in>set w1. is_white_space c)
     \<and> w2 \<noteq> [] \<and> (\<forall>c\<in>set w2. is_white_space c)
     \<and> v \<noteq> [] \<and> (\<forall>c\<in>set v. \<not> is_line_terminator c)"

definition field_match :: "string \<Rightarrow> string \<Rightarrow> bool" where
  "field_match key t \<longleftrightarrow> (\<exists>a b w1 w2 v. t = a @ b \<and> field_at key w1 w2 v b)"


section \<open>Reading a JSON string literal\<close>

text \<open>
  The reader of the text between the quotes of a JSON string literal, after the
  grammar of JSON: a character stands for itself unless it is a control character or
  a quote, and a backslash starts an escape. It is the measure for what
  \<open>QuoteJSONString\<close> writes.
\<close>

definition hex_val :: "char \<Rightarrow> nat option" where
  "hex_val c =
     (let n = (of_char c :: nat) in
      if 48 \<le> n \<and> n \<le> 57 then Some (n - 48)
      else if 97 \<le> n \<and> n \<le> 102 then Some (n - 87)
      else if 65 \<le> n \<and> n \<le> 70 then Some (n - 55)
      else None)"

definition escape_char :: "char \<Rightarrow> char option" where
  "escape_char e =
     (if e = CHR 0x22 then Some (CHR 0x22)
      else if e = CHR 0x5C then Some (CHR 0x5C)
      else if e = CHR ''/'' then Some (CHR ''/'')
      else if e = CHR ''b'' then Some (CHR 0x08)
      else if e = CHR ''f'' then Some (CHR 0x0C)
      else if e = CHR ''n'' then Some (CHR 0x0A)
      else if e = CHR ''r'' then Some (CHR 0x0D)
      else if e = CHR ''t'' then Some (CHR 0x09)
      else None)"

definition hex4 :: "char \<Rightarrow> char \<Rightarrow> char \<Rightarrow> char \<Rightarrow> nat option" where
  "hex4 a b c d =
     (case (hex_val a, hex_val b, hex_val c, hex_val d) of
        (Some i, Some j, Some k, Some l) \<Rightarrow> Some (((i * 16 + j) * 16 + k) * 16 + l)
      | _ \<Rightarrow> None)"

fun json_chars :: "string \<Rightarrow> string option" where
  "json_chars [] = Some []"
| "json_chars (c # cs) =
     (if c = CHR 0x5C then
        (case cs of
           [] \<Rightarrow> None
         | e # es \<Rightarrow>
             if e = CHR ''u'' then
               (case es of
                  h1 # h2 # h3 # h4 # t \<Rightarrow>
                    (case hex4 h1 h2 h3 h4 of
                       None \<Rightarrow> None
                     | Some n \<Rightarrow> if n < 256 then map_option ((#) (char_of n)) (json_chars t)
                                 else None)
                | _ \<Rightarrow> None)
             else (case escape_char e of
                     None \<Rightarrow> None
                   | Some d \<Rightarrow> map_option ((#) d) (json_chars es)))
      else if c = CHR 0x22 \<or> (of_char c :: nat) < 32 then None
      else map_option ((#) c) (json_chars cs))"

definition json_string_value :: "string \<Rightarrow> string option" where
  "json_string_value q =
     (case q of
        [] \<Rightarrow> None
      | c # r \<Rightarrow> if c = CHR 0x22 \<and> r \<noteq> [] \<and> last r = CHR 0x22 then json_chars (butlast r)
                 else None)"


section \<open>The section as the specification delimits it\<close>

text \<open>
  The specification describes the base configuration as lines: the \<open>auto-scale\<close>
  section starts after a header line \<open>config ... auto-scale\<close> and ends before the
  next line that is a bare \<open>end\<close>. This is the reading the section pattern of the
  handler is compared with.
\<close>

definition lines_of :: "string \<Rightarrow> string list" where
  "lines_of s =
     foldr (\<lambda>c acc. if c = CHR 0x0A then [] # acc else (c # hd acc) # tl acc) s [[]]"

definition words_of :: "string \<Rightarrow> string list" where
  "words_of s =
     filter (\<lambda>w. w \<noteq> [])
       (foldr (\<lambda>c acc. if is_white_space c then [] # acc else (c # hd acc) # tl acc) s [[]])"

definition is_section_header :: "string \<Rightarrow> bool" where
  "is_section_header l =
     (case words_of l of
        [] \<Rightarrow> False
      | w # ws \<Rightarrow> w = ''config'' \<and> ws \<noteq> [] \<and> last ws = ''auto-scale'')"

definition is_bare_end :: "string \<Rightarrow> bool" where
  "is_bare_end l = (words_of l = [''end''])"

definition spec_autoscale_section :: "string \<Rightarrow> string list" where
  "spec_autoscale_section config =
     takeWhile (\<lambda>l. \<not> is_bare_end l)
       (tl (dropWhile (\<lambda>l. \<not> is_section_header l) (lines_of config)))"

text \<open>
  A field, in the words of the specification, is a line \<open>set KEY VALUE\<close>: its first
  word is \<open>set\<close>, its second the key, and a value follows.
\<close>

definition is_set_line :: "string \<Rightarrow> string \<Rightarrow> bool" where
  "is_set_line key l =
     (case words_of l of
        w1 # w2 # v # _ \<Rightarrow> w1 = ''set'' \<and> w2 = key
      | _ \<Rightarrow> False)"

section \<open>Example inputs\<close>

text \<open>
  A base configuration in the grammar of the template: a \<open>dns\<close> section, then the
  \<open>auto-scale\<close> section with \<open>set sync-interface port3\<close> and \<open>set psksecret abc123\<close>.
\<close>

definition example_baseConfig :: string where
  "example_baseConfig =
     ''config system dns\<newline>''
     @ ''    unset primary\<newline>''
     @ ''end\<newline>''
     @ ''config system auto-scale\<newline>''
     @ ''    set status enable\<newline>''
     @ ''    set sync-interface port3\<newline>''
     @ ''    set role master\<newline>''
     @ ''    set callback-url ${CALLBACK_URL}\<newline>''
     @ ''    set psksecret abc123\<newline>''
     @ ''end\<newline>''"

text \<open>A platform that keeps the settings in a map.\<close>

definition memory_platform :: "(string \<rightharpoonup> 'v, 'v) CloudPlatform" where
  "memory_platform =
     \<lparr>getSettingItem = (\<lambda>store key. Inr (store key)),
      setSettingItem = (\<lambda>store key jsonValue. Inr (store(key \<mapsto> jsonValue)))\<rparr>"

definition example_handler :: "(unit, unit) AutoscaleHandler" where
  "example_handler = \<lparr>platform = CloudPlatform_abstract, baseConfig = example_baseConfig\<rparr>"

definition fresh_module :: module_state where
  "fresh_module = \<lparr>AUTOSCALE_SECTION_EXPR_lastIndex = 0, SET_SECRET_EXPR_lastIndex = 0\<rparr>"

text \<open>
  A base configuration whose \<open>auto-scale\<close> section has no \<open>psksecret\<close>, followed by a
  VPN section that has one.
\<close>

definition vpn_baseConfig :: string where
  "vpn_baseConfig =
     ''config system auto-scale\<newline>''
     @ ''    set status enable\<newline>''
     @ ''    set role master\<newline>''
     @ ''end\<newline>''
     @ ''config vpn ipsec phase1-interface\<newline>''
     @ ''    edit tunnel\<newline>''
     @ ''        set psksecret vpnkey\<newline>''
     @ ''    next\<newline>''
     @ ''end\<newline>''"

text \<open>A base configuration whose \<open>auto-scale\<close> section unsets the secret.\<close>

definition unset_baseConfig :: string where
  "unset_baseConfig =
     ''config system auto-scale\<newline>''
     @ ''    set status enable\<newline>''
     @ ''    unset psksecret\<newline>''
     @ ''    set role master\<newline>''
     @ ''end\<newline>''"

text \<open>
  Two base configurations whose \<open>auto-scale\<close> section holds the lines
  \<open>set sync-interface port3\<close> and \<open>set psksecret abc123\<close>: one with a line
  \<open>unset psksecret\<close> before them, one with the line ends CR LF.
\<close>

definition unset_first_baseConfig :: string where
  "unset_first_baseConfig =
     ''config system auto-scale\<newline>''
     @ ''    unset psksecret\<newline>''
     @ ''    set sync-interface port3\<newline>''
     @ ''    set psksecret abc123\<newline>''
     @ ''end\<newline>''"

definition crlf_baseConfig :: string where
  "crlf_baseConfig =
     ''config system auto-scale'' @ [CHR 0x0D, CHR 0x0A]
     @ ''    set sync-interface port3'' @ [CHR 0x0D, CHR 0x0A]
     @ ''    set psksecret abc123'' @ [CHR 0x0D, CHR 0x0A]
     @ ''end'' @ [CHR 0x0D, CHR 0x0A]"

text \<open>
  A base configuration whose \<open>auto-scale\<close> section has neither \<open>sync-interface\<close> nor
  \<open>admin-sport\<close>, followed by sections that have them.
\<close>

definition later_sections_baseConfig :: string where
  "later_sections_baseConfig =
     ''config system auto-scale\<newline>''
     @ ''    set status enable\<newline>''
     @ ''    set psksecret abc123\<newline>''
     @ ''end\<newline>''
     @ ''config system ha\<newline>''
     @ ''    set sync-interface port5\<newline>''
     @ ''end\<newline>''
     @ ''config system global\<newline>''
     @ ''    set admin-sport 9443\<newline>''
     @ ''end\<newline>''"

section \<open>Properties of the matcher\<close>

lemma bt_sound: "bt k x = Some y \<Longrightarrow> paths k x y"
proof (induction k x arbitrary: y rule: bt.induct)
  case (1 x)
  then show ?case by (auto intro: paths.intros)
next
  case (4 A k x)
  then show ?case
    by (cases "rest x") (auto intro: paths.intros split: if_splits)
next
  case (8 r1 r2 k x)
  then show ?case
    by (cases "bt (Match r1 # k) x") (auto intro: paths.intros)
next
  case (9 A k x)
  then show ?case
    by (cases "bt (Match (Atom A) # k) x") (auto intro: paths.intros)
next
  case (10 A k x)
  show ?case
  proof (cases "rest x")
    case Nil
    with 10 show ?thesis by (auto intro: paths.intros)
  next
    case (Cons c cs)
    show ?thesis
    proof (cases "cclass_mem A c")
      case False
      with 10 Cons show ?thesis by (auto intro: paths.intros)
    next
      case True
      show ?thesis
      proof (cases "bt (Match (Star A) # k) (step_char x c cs)")
        case None
        with 10 Cons True show ?thesis by (auto intro: paths.intros)
      next
        case (Some z)
        with 10(5) Cons True have "z = y" by simp
        with 10(2)[OF Cons True] Some Cons True show ?thesis
          by (auto intro: paths.intros)
      qed
    qed
  qed
qed (auto intro: paths.intros split: if_splits)

lemma bt_Star_take:
  "rest x = c # cs \<Longrightarrow> cclass_mem A c \<Longrightarrow> bt (Match (Star A) # k) (step_char x c cs) = Some z
     \<Longrightarrow> bt (Match (Star A) # k) x = Some z"
  by (subst bt.simps) simp

lemma bt_Star_skip:
  "bt k x = Some z \<Longrightarrow> \<exists>z'. bt (Match (Star A) # k) x = Some z'"
  by (subst bt.simps) (simp split: list.split option.split del: bt.simps)

lemma bt_complete: "paths k x y \<Longrightarrow> \<exists>z. bt k x = Some z"
proof (induction rule: paths.induct)
  case (AltL r1 k x y r2)
  then show ?case by (cases "bt (Match r1 # k) x") auto
next
  case (AltR r2 k x y r1)
  then show ?case by (cases "bt (Match r1 # k) x") auto
next
  case (OptTake A k x y)
  then show ?case by (cases "bt (Match (Atom A) # k) x") auto
next
  case (OptSkip k x y A)
  then show ?case by (cases "bt (Match (Atom A) # k) x") auto
next
  case (StarTake x c cs A k y)
  then show ?case by (blast intro: bt_Star_take)
next
  case (StarSkip k x y A)
  then show ?case by (blast intro: bt_Star_skip)
qed auto

lemma bt_None_iff: "bt k x = None \<longleftrightarrow> (\<forall>y. \<not> paths k x y)"
proof
  assume "bt k x = None"
  then show "\<forall>y. \<not> paths k x y" using bt_complete by fastforce
next
  assume "\<forall>y. \<not> paths k x y"
  then show "bt k x = None" using bt_sound by (cases "bt k x") auto
qed

inductive_simps paths_Nil: "paths [] x y"
inductive_simps paths_Close: "paths (Close n i # k) x y"
inductive_simps paths_Eps: "paths (Match Eps # k) x y"
inductive_simps paths_Atom: "paths (Match (Atom A) # k) x y"
inductive_simps paths_Bol: "paths (Match Bol # k) x y"
inductive_simps paths_WordB: "paths (Match WordB # k) x y"
inductive_simps paths_Seq: "paths (Match (Seq r1 r2) # k) x y"
inductive_simps paths_Alt: "paths (Match (Alt r1 r2) # k) x y"
inductive_simps paths_Opt: "paths (Match (Opt A) # k) x y"
inductive_simps paths_Star: "paths (Match (Star A) # k) x y"
inductive_simps paths_Plus: "paths (Match (Plus A) # k) x y"
inductive_simps paths_Group: "paths (Match (Group n r) # k) x y"



lemma advance_Nil [simp]: "advance x [] = x"
  by (simp add: advance_def)

lemma advance_Cons: "rest x = c # cs \<Longrightarrow> advance x (c # w) = advance (step_char x c cs) w"
  by (simp add: advance_def step_char_def)



lemma paths_lit:
  "paths (Match (lit s) # k) x y \<longleftrightarrow> prefix s (rest x) \<and> paths k (advance x s) y"
proof (induction s arbitrary: x rule: lit.induct)
  case 1
  show ?case by (simp add: paths_Eps)
next
  case (2 c)
  show ?case
    by (cases "rest x") (auto simp: paths_Atom advance_Cons)
next
  case (3 c v va)
  show ?case
    by (cases "rest x") (auto simp: paths_Atom paths_Seq advance_Cons 3 step_char_def)
qed

lemma paths_Star_iff:
  "paths (Match (Star A) # k) x y \<longleftrightarrow>
     (\<exists>w. (\<forall>c\<in>set w. cclass_mem A c) \<and> prefix w (rest x) \<and> paths k (advance x w) y)"
  (is "?L \<longleftrightarrow> ?R")
proof
  assume ?L
  then show ?R
  proof (induction "Match (Star A) # k" x y rule: paths.induct)
    case (StarTake x c cs y)
    then obtain w where w: "\<forall>c\<in>set w. cclass_mem A c" "prefix w cs"
      "paths k (advance (step_char x c cs) w) y"
      by (auto simp: step_char_def)
    with StarTake(1,2) show ?case
      by (intro exI[of _ "c # w"]) (auto simp: advance_Cons)
  next
    case (StarSkip x y)
    then show ?case by (intro exI[of _ "[]"]) auto
  qed
next
  assume ?R
  then obtain w where w: "\<forall>c\<in>set w. cclass_mem A c" "prefix w (rest x)" "paths k (advance x w) y"
    by blast
  then show ?L
  proof (induction w arbitrary: x)
    case Nil
    then show ?case by (auto intro: paths.StarSkip)
  next
    case (Cons c w)
    from Cons.prems(2) obtain cs where cs: "rest x = c # cs" "prefix w cs"
      by (cases "rest x") auto
    have "paths (Match (Star A) # k) (step_char x c cs) y"
      using Cons.IH[of "step_char x c cs"] Cons.prems cs
      by (simp add: advance_Cons step_char_def)
    with cs Cons.prems(1) show ?case by (auto intro: paths.StarTake)
  qed
qed


lemma paths_Plus_iff:
  "paths (Match (Plus A) # k) x y \<longleftrightarrow>
     (\<exists>w. w \<noteq> [] \<and> (\<forall>c\<in>set w. cclass_mem A c) \<and> prefix w (rest x) \<and> paths k (advance x w) y)"
  (is "?L \<longleftrightarrow> ?R")
proof
  assume ?L
  then obtain c cs where c: "rest x = c # cs" "cclass_mem A c"
    and p: "paths (Match (Star A) # k) (step_char x c cs) y"
    unfolding paths_Plus paths_Atom by blast
  from p obtain w where w: "\<forall>c\<in>set w. cclass_mem A c" "prefix w (rest (step_char x c cs))"
    "paths k (advance (step_char x c cs) w) y"
    unfolding paths_Star_iff by blast
  from w(2) have "prefix w cs" by (simp add: step_char_def)
  with c w show ?R
    by (intro exI[of _ "c # w"]) (simp add: advance_Cons)
next
  assume ?R
  then obtain w where w: "w \<noteq> []" "\<forall>c\<in>set w. cclass_mem A c" "prefix w (rest x)"
    "paths k (advance x w) y" by blast
  then obtain c w' where cw: "w = c # w'" by (cases w) auto
  with w(3) obtain cs where cs: "rest x = c # cs" "prefix w' cs" by (cases "rest x") auto
  have "paths (Match (Star A) # k) (step_char x c cs) y"
    unfolding paths_Star_iff
    using w cw cs by (intro exI[of _ w']) (simp add: advance_Cons step_char_def)
  with cs w(2) cw show ?L
    unfolding paths_Plus paths_Atom by auto
qed


lemma advance_advance: "prefix w (rest x) \<Longrightarrow> advance (advance x w) v = advance x (w @ v)"
  by (auto simp: advance_def prefix_def)

lemma prefix_rest_advance:
  "prefix w (rest x) \<Longrightarrow> prefix v (rest (advance x w)) \<longleftrightarrow> prefix (w @ v) (rest x)"
  by (auto simp: advance_def prefix_def)

lemma paths_run: "paths k x y \<longleftrightarrow> run x [] k y"
  by (simp add: run_def)

lemma run_step:
  "prefix w (rest x) \<and> prefix v (rest (advance x w)) \<and> paths k (advance (advance x w) v) y
     \<longleftrightarrow> run x (w @ v) k y"
proof (cases "prefix w (rest x)")
  case True
  then show ?thesis
    by (simp add: run_def advance_advance prefix_rest_advance)
next
  case False
  then have "\<not> prefix (w @ v) (rest x)"
    using append_prefixD by blast
  with False show ?thesis by (simp add: run_def)
qed

lemma run_lit: "run x w (Match (lit s) # k) y \<longleftrightarrow> run x (w @ s) k y"
  using run_step[of w x s k y] by (simp add: run_def paths_lit)

lemma run_Seq: "run x w (Match (Seq r1 r2) # k) y \<longleftrightarrow> run x w (Match r1 # Match r2 # k) y"
  by (simp add: run_def paths_Seq)

lemma run_Plus:
  "run x w (Match (Plus A) # k) y \<longleftrightarrow>
     (\<exists>v. v \<noteq> [] \<and> (\<forall>c\<in>set v. cclass_mem A c) \<and> run x (w @ v) k y)"
proof -
  have "run x w (Match (Plus A) # k) y \<longleftrightarrow>
     (\<exists>v. v \<noteq> [] \<and> (\<forall>c\<in>set v. cclass_mem A c) \<and>
        (prefix w (rest x) \<and> prefix v (rest (advance x w)) \<and> paths k (advance (advance x w) v) y))"
    by (auto simp: run_def paths_Plus_iff)
  then show ?thesis by (simp only: run_step)
qed

lemma run_Star:
  "run x w (Match (Star A) # k) y \<longleftrightarrow>
     (\<exists>v. (\<forall>c\<in>set v. cclass_mem A c) \<and> run x (w @ v) k y)"
proof -
  have "run x w (Match (Star A) # k) y \<longleftrightarrow>
     (\<exists>v. (\<forall>c\<in>set v. cclass_mem A c) \<and>
        (prefix w (rest x) \<and> prefix v (rest (advance x w)) \<and> paths k (advance (advance x w) v) y))"
    by (auto simp: run_def paths_Star_iff)
  then show ?thesis by (simp only: run_step)
qed

lemma run_Group:
  "run x w (Match (Group n r) # k) y \<longleftrightarrow>
     run x w (Match r # Close n (endIndex x + length w) # k) y"
  by (simp add: run_def paths_Group advance_def)

lemma run_Close_Nil:
  "run x w [Close n i] y \<longleftrightarrow>
     prefix w (rest x) \<and> y = (advance x w)\<lparr>caps := (caps x)[n := Some (i, endIndex x + length w)]\<rparr>"
  by (auto simp: run_def paths_Close paths_Nil advance_def)

lemma paths_field:
  "paths [Match (source (field_expr key))] x y \<longleftrightarrow>
     (\<exists>w1 w2 v. w1 \<noteq> [] \<and> (\<forall>c\<in>set w1. is_white_space c)
        \<and> w2 \<noteq> [] \<and> (\<forall>c\<in>set w2. is_white_space c)
        \<and> v \<noteq> [] \<and> (\<forall>c\<in>set v. \<not> is_line_terminator c)
        \<and> prefix (''set'' @ w1 @ key @ w2 @ v) (rest x)
        \<and> y = (advance x (''set'' @ w1 @ key @ w2 @ v))
               \<lparr>caps := (caps x)[0 := Some (endIndex x + length (''set'' @ w1 @ key @ w2),
                                             endIndex x + length (''set'' @ w1 @ key @ w2 @ v))]\<rparr>)"
  unfolding field_expr_def paths_run
  by (simp add: run_Seq run_lit run_Plus run_Group run_Close_Nil del: lit.simps)


declare search.simps [simp del]

lemma search_Nil:
  "search r n i p [] =
     (case bt [Match r] \<lparr>endIndex = i, prev = p, rest = [], caps = replicate n None\<rparr> of
        Some y \<Rightarrow> Some \<lparr>index = i, lastEnd = endIndex y, captures = caps y\<rparr>
      | None \<Rightarrow> None)"
  by (subst search.simps) (simp split: option.split)

lemma search_Cons:
  "search r n i p (c # cs) =
     (case bt [Match r] \<lparr>endIndex = i, prev = p, rest = c # cs, caps = replicate n None\<rparr> of
        Some y \<Rightarrow> Some \<lparr>index = i, lastEnd = endIndex y, captures = caps y\<rparr>
      | None \<Rightarrow> search r n (Suc i) (Some c) cs)"
  by (subst search.simps) (simp split: option.split)

lemma search_None_iff:
  "search r n i p s = None \<longleftrightarrow> (\<forall>a b. s = a @ b \<longrightarrow> bt [Match r] (state_at n i p a b) = None)"
proof (induction s arbitrary: i p)
  case Nil
  show ?case by (auto simp: search_Nil state_at_def split: option.splits)
next
  case (Cons c cs)
  have "search r n i p (c # cs) = None \<longleftrightarrow>
          bt [Match r] (state_at n i p [] (c # cs)) = None \<and> search r n (Suc i) (Some c) cs = None"
    by (auto simp: search_Cons state_at_def split: option.splits)
  also have "\<dots> \<longleftrightarrow> bt [Match r] (state_at n i p [] (c # cs)) = None \<and>
                 (\<forall>a b. cs = a @ b \<longrightarrow> bt [Match r] (state_at n i p (c # a) b) = None)"
    by (simp add: Cons.IH state_at_def)
  also have "\<dots> \<longleftrightarrow> (\<forall>a b. c # cs = a @ b \<longrightarrow> bt [Match r] (state_at n i p a b) = None)"
    by (auto simp: Cons_eq_append_conv)
  finally show ?case .
qed

lemma search_Some:
  "search r n i p s = Some m \<Longrightarrow>
     \<exists>a b y. s = a @ b \<and> bt [Match r] (state_at n i p a b) = Some y
        \<and> m = \<lparr>index = i + length a, lastEnd = endIndex y, captures = caps y\<rparr>"
proof (induction s arbitrary: i p)
  case Nil
  then obtain y where y: "bt [Match r] (state_at n i p [] []) = Some y"
    "m = \<lparr>index = i, lastEnd = endIndex y, captures = caps y\<rparr>"
    by (auto simp: search_Nil state_at_def split: option.splits)
  show ?case
    by (rule exI[of _ "[]"], rule exI[of _ "[]"], rule exI[of _ y]) (simp add: y)
next
  case (Cons c cs)
  show ?case
  proof (cases "bt [Match r] (state_at n i p [] (c # cs))")
    case (Some y)
    with Cons.prems have m: "m = \<lparr>index = i, lastEnd = endIndex y, captures = caps y\<rparr>"
      by (simp add: search_Cons state_at_def)
    show ?thesis
      by (rule exI[of _ "[]"], rule exI[of _ "c # cs"], rule exI[of _ y]) (simp add: Some m)
  next
    case None
    with Cons.prems have "search r n (Suc i) (Some c) cs = Some m"
      by (simp add: search_Cons state_at_def)
    from Cons.IH[OF this] obtain a b y where y: "cs = a @ b"
      "bt [Match r] (state_at n (Suc i) (Some c) a b) = Some y"
      "m = \<lparr>index = Suc i + length a, lastEnd = endIndex y, captures = caps y\<rparr>"
      by blast
    have "state_at n i p (c # a) b = state_at n (Suc i) (Some c) a b"
      by (simp add: state_at_def)
    then show ?thesis
      by - (rule exI[of _ "c # a"], rule exI[of _ b], rule exI[of _ y], simp add: y)
  qed
qed

lemma paths_field_at:
  "paths [Match (source (field_expr key))] x y \<longleftrightarrow>
     (\<exists>w1 w2 v. field_at key w1 w2 v (rest x)
        \<and> y = (advance x (''set'' @ w1 @ key @ w2 @ v))
               \<lparr>caps := (caps x)[0 := Some (endIndex x + length (''set'' @ w1 @ key @ w2),
                                             endIndex x + length (''set'' @ w1 @ key @ w2 @ v))]\<rparr>)"
  unfolding paths_field field_at_def by blast

lemma bt_field_None_iff:
  "bt [Match (source (field_expr key))] x = None \<longleftrightarrow> (\<forall>w1 w2 v. \<not> field_at key w1 w2 v (rest x))"
  unfolding bt_None_iff paths_field_at by blast

lemma field_exec_None_iff:
  "fst (RegExpBuiltinExec (field_expr key) 0 t) = None \<longleftrightarrow> \<not> field_match key t"
proof -
  have "fst (RegExpBuiltinExec (field_expr key) 0 t) = None \<longleftrightarrow>
          search (source (field_expr key)) 1 0 None t = None"
    by (simp add: RegExpBuiltinExec_def field_expr_def char_before_def split: option.splits
            )
  also have "\<dots> \<longleftrightarrow> (\<forall>a b. t = a @ b \<longrightarrow> (\<forall>w1 w2 v. \<not> field_at key w1 w2 v b))"
    unfolding search_None_iff bt_field_None_iff by (simp add: state_at_def)
  also have "\<dots> \<longleftrightarrow> \<not> field_match key t"
    unfolding field_match_def by blast
  finally show ?thesis .
qed

lemma substring_middle: "substring (a @ v @ b) (length a) (length a + length v) = v"
  by (simp add: substring_def)

lemma field_exec_Some:
  assumes "fst (RegExpBuiltinExec (field_expr key) 0 t) = Some m"
  shows "\<exists>a b w1 w2 v. t = a @ b \<and> field_at key w1 w2 v b \<and> capture t m 0 = Str v"
proof -
  from assms have "search (source (field_expr key)) 1 0 None t = Some m"
    by (simp add: RegExpBuiltinExec_def field_expr_def char_before_def split: option.splits)
  from search_Some[OF this] obtain a b y where ab: "t = a @ b"
    and y: "bt [Match (source (field_expr key))] (state_at 1 0 None a b) = Some y"
    and m: "m = \<lparr>index = 0 + length a, lastEnd = endIndex y, captures = caps y\<rparr>"
    by blast
  from bt_sound[OF y] obtain w1 w2 v where f: "field_at key w1 w2 v b"
    and c: "caps y = [Some (length a + length (''set'' @ w1 @ key @ w2),
                            length a + length (''set'' @ w1 @ key @ w2 @ v))]"
    unfolding paths_field_at by (auto simp: state_at_def)
  from f obtain b' where b': "b = (''set'' @ w1 @ key @ w2) @ v @ b'"
    by (auto simp: field_at_def prefix_def)
  define p where "p = a @ ''set'' @ w1 @ key @ w2"
  have t: "t = p @ v @ b'"
    by (simp add: p_def ab b')
  have "caps y ! 0 = Some (length p, length p + length v)"
    by (simp add: c p_def)
  then have "capture t m 0 = Str (substring t (length p) (length p + length v))"
    by (simp add: capture_def m)
  also have "substring t (length p) (length p + length v) = v"
    unfolding t by (rule substring_middle)
  finally have "capture t m 0 = Str v" .
  with ab f show ?thesis by blast
qed

lemma field_of_cases:
  "(\<not> field_match key (ToString sec) \<and> field_of key sec = Null) \<or>
   (\<exists>a b w1 w2 v. ToString sec = a @ b \<and> field_at key w1 w2 v b \<and> field_of key sec = Str v)"
proof (cases "fst (RegExpBuiltinExec (field_expr key) 0 (ToString sec))")
  case None
  then have "\<not> field_match key (ToString sec)"
    by (simp add: field_exec_None_iff)
  with None show ?thesis
    by (simp add: field_of_def and_group1_def)
next
  case (Some m)
  from field_exec_Some[OF Some] Some show ?thesis
    by (simp add: field_of_def and_group1_def)
qed

lemma ToBoolean_field_of:
  "ToBoolean (field_of key sec) \<longleftrightarrow> field_match key (ToString sec)"
proof -
  from field_of_cases[of key sec] show ?thesis
  proof
    assume "\<not> field_match key (ToString sec) \<and> field_of key sec = Null"
    then show ?thesis by simp
  next
    assume "\<exists>a b w1 w2 v. ToString sec = a @ b \<and> field_at key w1 w2 v b \<and> field_of key sec = Str v"
    then obtain a b w1 w2 v where *: "ToString sec = a @ b" "field_at key w1 w2 v b"
      "field_of key sec = Str v" by blast
    from *(1,2) have "field_match key (ToString sec)"
      unfolding field_match_def by blast
    moreover from *(2) have "v \<noteq> []" by (simp add: field_at_def)
    ultimately show ?thesis using *(3) by simp
  qed
qed

lemma field_of_Null_iff:
  "field_of key sec = Null \<longleftrightarrow> fst (RegExpBuiltinExec (field_expr key) 0 (ToString sec)) = None"
proof -
  from field_of_cases[of key sec] show ?thesis
  proof
    assume "\<not> field_match key (ToString sec) \<and> field_of key sec = Null"
    then show ?thesis by (simp add: field_exec_None_iff)
  next
    assume "\<exists>a b w1 w2 v. ToString sec = a @ b \<and> field_at key w1 w2 v b \<and> field_of key sec = Str v"
    then obtain a b w1 w2 v where *: "ToString sec = a @ b" "field_at key w1 w2 v b"
      "field_of key sec = Str v" by blast
    from *(1,2) have "field_match key (ToString sec)"
      unfolding field_match_def by blast
    with *(3) show ?thesis by (simp add: field_exec_None_iff)
  qed
qed

text \<open>Fields of a part of a text are fields of the text.\<close>

lemma field_match_sublist:
  assumes "field_match key s" and "sublist s t"
  shows "field_match key t"
proof -
  from assms(1) obtain a b w1 w2 v where s: "s = a @ b" and f: "field_at key w1 w2 v b"
    unfolding field_match_def by blast
  from assms(2) obtain p q where t: "t = p @ s @ q"
    unfolding sublist_def by blast
  from f have "field_at key w1 w2 v (b @ q)"
    by (auto simp: field_at_def prefix_def)
  moreover have "t = (p @ a) @ (b @ q)" by (simp add: t s)
  ultimately show ?thesis unfolding field_match_def by blast
qed

lemma sublist_substring: "sublist (substring S i j) S"
  unfolding substring_def
  by (meson sublist_drop sublist_order.order.trans sublist_take)

lemma field_match_sublist_set: "field_match key t \<Longrightarrow> sublist ''set'' t"
proof -
  assume "field_match key t"
  then obtain a b w1 w2 v where "t = a @ b" "prefix (''set'' @ w1 @ key @ w2 @ v) b"
    unfolding field_match_def field_at_def by blast
  then obtain c where "t = a @ ''set'' @ (w1 @ key @ w2 @ v @ c)"
    by (auto simp: prefix_def)
  then show ?thesis unfolding sublist_def by blast
qed

lemma not_field_match_null: "\<not> field_match key ''null''"
proof
  assume "field_match key ''null''"
  then have "sublist ''set'' ''null''" by (rule field_match_sublist_set)
  then show False by code_simp
qed

lemma not_field_match_undefined: "\<not> field_match key ''undefined''"
proof
  assume "field_match key ''undefined''"
  then have "sublist ''set'' ''undefined''" by (rule field_match_sublist_set)
  then show False by code_simp
qed

text \<open>A field of the captured section is a field of the base configuration.\<close>

lemma field_match_section:
  assumes "field_match key (ToString (fst (autoScaleSection config li)))"
  shows "field_match key config"
proof (cases "fst (autoScaleSection config li)")
  case Undefined
  with assms not_field_match_undefined show ?thesis by simp
next
  case Null
  with assms not_field_match_null show ?thesis by simp
next
  case (Str s)
  then have "sublist s config"
    by (auto simp: autoScaleSection_def and_group1_def capture_def sublist_substring
             split: prod.splits option.splits)
  with assms Str show ?thesis
    by (auto intro: field_match_sublist)
qed

lemma RegExpBuiltinExec_not_global:
  "\<not> global R \<Longrightarrow> RegExpBuiltinExec R li S = (fst (RegExpBuiltinExec R 0 S), li)"
  by (simp add: RegExpBuiltinExec_def split: option.splits)

lemma autoScaleSection_lastIndex:
  "autoScaleSection config li = (fst (autoScaleSection config 0), li)"
  using RegExpBuiltinExec_not_global[of AUTOSCALE_SECTION_EXPR li config]
  by (simp add: autoScaleSection_def AUTOSCALE_SECTION_EXPR_def split: prod.splits)

text \<open>What a call returns or throws, without the state of the patterns.\<close>

lemma getSlaveConfig_result:
  "fst (getSlaveConfig this g masterIp callbackUrl) =
     (let sec = fst (autoScaleSection (baseConfig this) 0);
          syncInterface = field_of ''sync-interface'' sec;
          pskSecret = field_of ''psksecret'' sec;
          adminPort = field_of ''admin-sport'' sec
      in if \<not> ToBoolean pskSecret \<or> \<not> ToBoolean callbackUrl \<or> \<not> ToBoolean masterIp
         then Inl (Error (''Base config is invalid (''
                 @ ToString (if \<not> ToBoolean pskSecret then Str ''psksecret is missing''
                             else if \<not> ToBoolean masterIp then Str ''Master ip is missing''
                             else if \<not> ToBoolean callbackUrl then Str ''Api endpoint is missing''
                             else Undefined)
                 @ ''): ''
                 @ JSON_stringify
                     [(''syncInterface'', syncInterface),
                      (''apiEndpoint'', callbackUrl),
                      (''masterIp'', masterIp),
                      (''pskSecret'', js_and pskSecret (Str (typeof pskSecret)))]))
         else Inr (slave_config
                (ToString (if ToBoolean syncInterface then syncInterface else Str ''port1''))
                (ToString masterIp)
                (ToString callbackUrl)
                (ToString pskSecret)
                (ToString (if ToBoolean adminPort then adminPort else Str ''8443''))))"
  using autoScaleSection_lastIndex[of "baseConfig this" "AUTOSCALE_SECTION_EXPR_lastIndex g"]
  by (simp add: getSlaveConfig_def Let_def split: prod.splits)


declare collect_matches.simps [simp del]

lemma GetSubstitution_no_dollar:
  "CHR ''$'' \<notin> set r \<Longrightarrow> GetSubstitution matched str position cs r = r"
  by (induction matched str position cs r rule: GetSubstitution.induct) auto

lemma bt_lit:
  "bt [Match (lit t)] x = (if prefix t (rest x) then Some (advance x t) else None)"
proof (cases "prefix t (rest x)")
  case True
  then have "paths [Match (lit t)] x (advance x t)"
    by (simp add: paths_lit paths_Nil)
  from bt_complete[OF this] obtain z where z: "bt [Match (lit t)] x = Some z" by blast
  from bt_sound[OF z] have "z = advance x t"
    by (simp add: paths_lit paths_Nil)
  with z True show ?thesis by simp
next
  case False
  then have "\<forall>y. \<not> paths [Match (lit t)] x y"
    by (simp add: paths_lit)
  with False show ?thesis by (simp add: bt_None_iff)
qed

text \<open>The search returns the first position at which the pattern matches.\<close>

lemma state_at_Cons: "state_at n i p (c # a) b = state_at n (Suc i) (Some c) a b"
  by (simp add: state_at_def)

lemma search_first:
  assumes "bt [Match r] (state_at n i p a b) = Some y"
    and "\<And>a' b'. a @ b = a' @ b' \<Longrightarrow> length a' < length a
           \<Longrightarrow> bt [Match r] (state_at n i p a' b') = None"
  shows "search r n i p (a @ b) = Some \<lparr>index = i + length a, lastEnd = endIndex y, captures = caps y\<rparr>"
  using assms
proof (induction a arbitrary: i p)
  case Nil
  then show ?case
    by (cases b) (simp_all add: search_Nil search_Cons state_at_def)
next
  case (Cons c a)
  have none: "bt [Match r] \<lparr>endIndex = i, prev = p, rest = c # a @ b, caps = replicate n None\<rparr> = None"
    using Cons.prems(2)[of "[]" "c # a @ b"] by (simp add: state_at_def)
  have "search r n (Suc i) (Some c) (a @ b)
          = Some \<lparr>index = Suc i + length a, lastEnd = endIndex y, captures = caps y\<rparr>"
  proof (rule Cons.IH)
    show "bt [Match r] (state_at n (Suc i) (Some c) a b) = Some y"
      using Cons.prems(1) by (simp only: state_at_Cons)
  next
    fix a' b'
    assume "a @ b = a' @ b'" "length a' < length a"
    then show "bt [Match r] (state_at n (Suc i) (Some c) a' b') = None"
      using Cons.prems(2)[of "c # a'" b'] by (simp add: state_at_Cons)
  qed
  with none show ?case by (simp add: search_Cons)
qed

lemma getMasterConfig_first:
  assumes bc: "baseConfig this = a @ ''${CALLBACK_URL}'' @ b"
    and first: "\<And>a' b'. baseConfig this = a' @ ''${CALLBACK_URL}'' @ b' \<Longrightarrow> length a \<le> length a'"
  shows "getMasterConfig this callbackUrl
           = a @ GetSubstitution ''${CALLBACK_URL}'' (baseConfig this) (length a) [] (ToString callbackUrl) @ b"
proof -
  let ?t = "''${CALLBACK_URL}''"
  have y: "bt [Match (lit ?t)] (state_at 0 0 None a (?t @ b)) = Some (advance (state_at 0 0 None a (?t @ b)) ?t)"
    unfolding bt_lit by (simp add: state_at_def)
  have none: "bt [Match (lit ?t)] (state_at 0 0 None a' b') = None"
    if "a @ (?t @ b) = a' @ b'" "length a' < length a" for a' b'
  proof (rule ccontr)
    assume "bt [Match (lit ?t)] (state_at 0 0 None a' b') \<noteq> None"
    then have "prefix ?t b'"
      unfolding bt_lit by (simp add: state_at_def split: if_splits)
    then obtain b'' where "b' = ?t @ b''" unfolding prefix_def by blast
    with that(1) bc have "baseConfig this = a' @ ?t @ b''" by simp
    from first[OF this] that(2) show False by simp
  qed
  have s: "search (lit ?t) 0 0 None (a @ (?t @ b))
             = Some \<lparr>index = 0 + length a,
                     lastEnd = endIndex (advance (state_at 0 0 None a (?t @ b)) ?t),
                     captures = caps (advance (state_at 0 0 None a (?t @ b)) ?t)\<rparr>"
    by (rule search_first[OF y none])
  define m where "m = \<lparr>index = length a, lastEnd = length a + length ?t, captures = []\<rparr>"
  have g: "\<not> global CALLBACK_URL_EXPR"
    by (simp add: CALLBACK_URL_EXPR_def)
  have e: "RegExpBuiltinExec CALLBACK_URL_EXPR 0 (baseConfig this) = (Some m, 0)"
    using s unfolding RegExpBuiltinExec_def CALLBACK_URL_EXPR_def m_def
    by (simp add: bc char_before_def advance_def state_at_def del: lit.simps)
  have cm: "collect_matches CALLBACK_URL_EXPR (baseConfig this) 0 = ([m], 0)"
    by (subst collect_matches.simps) (simp add: e g)
  have mt: "match_text (baseConfig this) m = ?t"
    by (simp add: match_text_def substring_def m_def bc)
  have sp: "splice (baseConfig this) (ToString callbackUrl) 0 [m]
          = a @ GetSubstitution ?t (baseConfig this) (length a) [] (ToString callbackUrl) @ b"
    by (simp add: mt Let_def) (simp add: m_def substring_def bc)
  show ?thesis
    unfolding getMasterConfig_def replace_def by (simp only: cm g sp if_False split fst_conv)
qed


lemma hex_val_hex_digit: "n < 16 \<Longrightarrow> hex_val (hex_digit n) = Some n"
  by (auto simp: hex_val_def hex_digit_def Let_def)

lemma json_chars_quote_code_unit:
  "json_chars (quote_code_unit c @ t) = map_option ((#) c) (json_chars t)"
proof -
  consider (special) "c \<in> {CHR 0x08, CHR 0x09, CHR 0x0A, CHR 0x0C, CHR 0x0D, CHR 0x22, CHR 0x5C}"
    | (control) "c \<notin> {CHR 0x08, CHR 0x09, CHR 0x0A, CHR 0x0C, CHR 0x0D, CHR 0x22, CHR 0x5C}"
        "(of_char c :: nat) < 32"
    | (plain) "c \<notin> {CHR 0x08, CHR 0x09, CHR 0x0A, CHR 0x0C, CHR 0x0D, CHR 0x22, CHR 0x5C}"
        "\<not> (of_char c :: nat) < 32"
    by blast
  then show ?thesis
  proof cases
    case special
    then show ?thesis
      by (auto simp: quote_code_unit_def escape_char_def)
  next
    case control
    define n where "n = (of_char c :: nat)"
    have n: "n < 32" "c = char_of n" using control(2) by (simp_all add: n_def)
    have h: "hex4 CHR ''0'' CHR ''0'' (hex_digit (n div 16)) (hex_digit (n mod 16)) = Some n"
      using n(1) by (simp add: hex4_def hex_val_hex_digit) (simp add: hex_val_def)
    from control have "quote_code_unit c
        = [CHR 0x5C, CHR ''u'', CHR ''0'', CHR ''0'', hex_digit (n div 16), hex_digit (n mod 16)]"
      by (simp add: quote_code_unit_def n_def)
    then show ?thesis
      using h n by simp
  next
    case plain
    then show ?thesis
      by (simp add: quote_code_unit_def)
  qed
qed

lemma json_chars_quote: "json_chars (concat (map quote_code_unit s)) = Some s"
  by (induction s) (simp_all add: json_chars_quote_code_unit del: json_chars.simps(2))

lemma json_string_value_QuoteJSONString: "json_string_value (QuoteJSONString s) = Some s"
  by (simp add: json_string_value_def QuoteJSONString_def json_chars_quote)


lemma getSlaveConfig_fst_cong:
  "baseConfig this = baseConfig this' \<Longrightarrow>
   fst (getSlaveConfig this g masterIp callbackUrl)
     = fst (getSlaveConfig this' g' masterIp callbackUrl)"
  by (simp add: getSlaveConfig_result)

lemma redact_lastIndex: "redact config li = redact config 0"
  by (simp add: redact_def replace_def SET_SECRET_EXPR_def)

section \<open>What the two configuration methods do on every input\<close>

text \<open>
  \<open>getSlaveConfig\<close> throws exactly when one of the two arguments is absent or empty or
  the field pattern for \<open>psksecret\<close> finds nothing in the text the section pattern has
  captured; otherwise it returns the template filled in.
\<close>

lemma getSlaveConfig_throws_iff:
  "((\<exists>msg. fst (getSlaveConfig this g masterIp callbackUrl) = Inl (Error msg)
           \<and> prefix ''Base config is invalid ('' msg)
      \<longleftrightarrow> (\<not> ToBoolean masterIp \<or> \<not> ToBoolean callbackUrl
           \<or> fst (RegExpBuiltinExec (field_expr ''psksecret'') 0
                   (ToString (fst (autoScaleSection (baseConfig this) 0)))) = None))
   \<and> ((\<exists>config. fst (getSlaveConfig this g masterIp callbackUrl) = Inr config)
      \<longleftrightarrow> (ToBoolean masterIp \<and> ToBoolean callbackUrl
           \<and> fst (RegExpBuiltinExec (field_expr ''psksecret'') 0
                   (ToString (fst (autoScaleSection (baseConfig this) 0)))) \<noteq> None))
   \<and> (\<forall>config. fst (getSlaveConfig this g masterIp callbackUrl) = Inr config \<longrightarrow>
         config = slave_config
           (ToString (if ToBoolean (field_of ''sync-interface''
                                      (fst (autoScaleSection (baseConfig this) 0)))
                      then field_of ''sync-interface'' (fst (autoScaleSection (baseConfig this) 0))
                      else Str ''port1''))
           (ToString masterIp)
           (ToString callbackUrl)
           (ToString (field_of ''psksecret'' (fst (autoScaleSection (baseConfig this) 0))))
           (ToString (if ToBoolean (field_of ''admin-sport''
                                      (fst (autoScaleSection (baseConfig this) 0)))
                      then field_of ''admin-sport'' (fst (autoScaleSection (baseConfig this) 0))
                      else Str ''8443'')))"
proof -
  define sec where "sec = fst (autoScaleSection (baseConfig this) 0)"
  have psk: "ToBoolean (field_of ''psksecret'' sec) \<longleftrightarrow>
               fst (RegExpBuiltinExec (field_expr ''psksecret'') 0 (ToString sec)) \<noteq> None"
    by (simp add: ToBoolean_field_of field_exec_None_iff)
  show ?thesis
    unfolding getSlaveConfig_result sec_def[symmetric] Let_def
    using psk by auto
qed

text \<open>
  The defaults \<open>port1\<close> and \<open>8443\<close> are used when the field pattern finds nothing in
  the captured text, and so when it finds nothing in the whole base configuration.
\<close>

lemma getSlaveConfig_defaults:
  assumes "fst (getSlaveConfig this g masterIp callbackUrl) = Inr config"
  shows "\<exists>syncInterface pskSecret adminPort.
     config = slave_config syncInterface (ToString masterIp) (ToString callbackUrl)
                pskSecret adminPort
     \<and> (\<not> field_match ''sync-interface'' (ToString (fst (autoScaleSection (baseConfig this) 0)))
          \<longrightarrow> syncInterface = ''port1'')
     \<and> (\<not> field_match ''admin-sport'' (ToString (fst (autoScaleSection (baseConfig this) 0)))
          \<longrightarrow> adminPort = ''8443'')
     \<and> (field_match ''sync-interface'' (ToString (fst (autoScaleSection (baseConfig this) 0)))
          \<longrightarrow> field_of ''sync-interface'' (fst (autoScaleSection (baseConfig this) 0))
                = Str syncInterface)
     \<and> (field_match ''admin-sport'' (ToString (fst (autoScaleSection (baseConfig this) 0)))
          \<longrightarrow> field_of ''admin-sport'' (fst (autoScaleSection (baseConfig this) 0))
                = Str adminPort)
     \<and> (\<not> field_match ''sync-interface'' (baseConfig this) \<longrightarrow> syncInterface = ''port1'')
     \<and> (\<not> field_match ''admin-sport'' (baseConfig this) \<longrightarrow> adminPort = ''8443'')"
proof -
  define sec where "sec = fst (autoScaleSection (baseConfig this) 0)"
  define si where "si = field_of ''sync-interface'' sec"
  define ap where "ap = field_of ''admin-sport'' sec"
  define syncInterface where "syncInterface = ToString (if ToBoolean si then si else Str ''port1'')"
  define adminPort where "adminPort = ToString (if ToBoolean ap then ap else Str ''8443'')"
  from assms have config: "config = slave_config syncInterface (ToString masterIp)
      (ToString callbackUrl) (ToString (field_of ''psksecret'' sec)) adminPort"
    unfolding getSlaveConfig_result Let_def sec_def[symmetric] si_def[symmetric] ap_def[symmetric]
      syncInterface_def adminPort_def
    by (simp split: if_splits)
  have si_no: "\<not> field_match ''sync-interface'' (ToString sec) \<Longrightarrow> syncInterface = ''port1''"
    by (simp add: syncInterface_def si_def ToBoolean_field_of)
  have ap_no: "\<not> field_match ''admin-sport'' (ToString sec) \<Longrightarrow> adminPort = ''8443''"
    by (simp add: adminPort_def ap_def ToBoolean_field_of)
  have si_yes: "field_match ''sync-interface'' (ToString sec) \<Longrightarrow> si = Str syncInterface"
    using field_of_cases[of "''sync-interface''" sec]
    by (auto simp: syncInterface_def si_def field_at_def)
  have ap_yes: "field_match ''admin-sport'' (ToString sec) \<Longrightarrow> ap = Str adminPort"
    using field_of_cases[of "''admin-sport''" sec]
    by (auto simp: adminPort_def ap_def field_at_def)
  have si_bc: "\<not> field_match ''sync-interface'' (baseConfig this) \<Longrightarrow> syncInterface = ''port1''"
    using field_match_section[of "''sync-interface''" "baseConfig this" 0] si_no
    by (auto simp: sec_def)
  have ap_bc: "\<not> field_match ''admin-sport'' (baseConfig this) \<Longrightarrow> adminPort = ''8443''"
    using field_match_section[of "''admin-sport''" "baseConfig this" 0] ap_no
    by (auto simp: sec_def)
  show ?thesis
    unfolding sec_def[symmetric]
    using config si_no ap_no si_yes ap_yes si_bc ap_bc
    unfolding si_def ap_def
    by blast
qed

text \<open>
  \<open>getMasterConfig\<close> puts a callback URL without the character \<open>$\<close> in the place of
  the first placeholder.
\<close>

lemma getMasterConfig_substitutes:
  assumes "baseConfig this = a @ ''${CALLBACK_URL}'' @ b"
    and "\<forall>a' b'. baseConfig this = a' @ ''${CALLBACK_URL}'' @ b' \<longrightarrow> a' = a"
    and "CHR ''$'' \<notin> set callbackUrl"
  shows "getMasterConfig this (Str callbackUrl) = a @ callbackUrl @ b"
proof -
  from assms(2) have "\<And>a' b'. baseConfig this = a' @ ''${CALLBACK_URL}'' @ b'
                        \<Longrightarrow> length a \<le> length a'" by auto
  from getMasterConfig_first[OF assms(1) this, where callbackUrl = "Str callbackUrl"] assms(3)
  show ?thesis by (simp add: GetSubstitution_no_dollar)
qed

section \<open>The claims\<close>

text \<open>
  Claim C1: the values of \<open>sync-interface\<close>, \<open>psksecret\<close> and \<open>admin-sport\<close> are to come
  from the \<open>auto-scale\<close> section only, the lines between the header and the next bare
  \<open>end\<close>. The code does otherwise: on a base configuration whose \<open>auto-scale\<close> section
  has no \<open>psksecret\<close> and whose later VPN section has one, the section pattern captures
  the text up to the last \<open>end\<close>, and the configuration returned carries the secret of
  the VPN section. The section as the specification delimits it holds two lines, none
  of them a \<open>psksecret\<close>.
\<close>

theorem getSlaveConfig_reads_beyond_section:
  "fst (getSlaveConfig \<lparr>platform = p, baseConfig = vpn_baseConfig\<rparr> g
          (Str ''10.0.0.5'') (Str ''https://cb''))
     = Inr (slave_config ''port1'' ''10.0.0.5'' ''https://cb'' ''vpnkey'' ''8443'')
   \<and> spec_autoscale_section vpn_baseConfig = [''    set status enable'', ''    set role master'']
   \<and> fst (autoScaleSection vpn_baseConfig 0)
     = Str (''set status enable\<newline>''
            @ ''    set role master\<newline>''
            @ ''end\<newline>''
            @ ''config vpn ipsec phase1-interface\<newline>''
            @ ''    edit tunnel\<newline>''
            @ ''        set psksecret vpnkey\<newline>''
            @ ''    next\<newline>'')"
proof -
  have "fst (getSlaveConfig \<lparr>platform = CloudPlatform_abstract :: (unit, unit) CloudPlatform,
                             baseConfig = vpn_baseConfig\<rparr> fresh_module
               (Str ''10.0.0.5'') (Str ''https://cb''))
          = Inr (slave_config ''port1'' ''10.0.0.5'' ''https://cb'' ''vpnkey'' ''8443'')"
    unfolding getSlaveConfig_result by code_simp
  then have "fst (getSlaveConfig \<lparr>platform = p, baseConfig = vpn_baseConfig\<rparr> g
          (Str ''10.0.0.5'') (Str ''https://cb''))
     = Inr (slave_config ''port1'' ''10.0.0.5'' ''https://cb'' ''vpnkey'' ''8443'')"
    by (simp add: getSlaveConfig_fst_cong[of "\<lparr>platform = p, baseConfig = vpn_baseConfig\<rparr>"
          "\<lparr>platform = CloudPlatform_abstract :: (unit, unit) CloudPlatform,
            baseConfig = vpn_baseConfig\<rparr>" g _ _ fresh_module])
  moreover have "spec_autoscale_section vpn_baseConfig
                   = [''    set status enable'', ''    set role master'']"
    by code_simp
  moreover have "fst (autoScaleSection vpn_baseConfig 0)
     = Str (''set status enable\<newline>''
            @ ''    set role master\<newline>''
            @ ''end\<newline>''
            @ ''config vpn ipsec phase1-interface\<newline>''
            @ ''    edit tunnel\<newline>''
            @ ''        set psksecret vpnkey\<newline>''
            @ ''    next\<newline>'')"
    by code_simp
  ultimately show ?thesis by blast
qed

theorem getSlaveConfig_reads_beyond_section_witness:
  "fst (getSlaveConfig \<lparr>platform = CloudPlatform_abstract :: (unit, unit) CloudPlatform,
                        baseConfig = vpn_baseConfig\<rparr> fresh_module
          (Str ''10.0.0.5'') (Str ''https://cb''))
     = Inr (slave_config ''port1'' ''10.0.0.5'' ''https://cb'' ''vpnkey'' ''8443'')"
  using getSlaveConfig_reads_beyond_section[of "CloudPlatform_abstract :: (unit, unit) CloudPlatform"
          fresh_module]
  by simp

text \<open>
  Claim C2: the call is to throw whenever \<open>masterIp\<close> or \<open>callbackUrl\<close> is absent or
  empty or no \<open>psksecret\<close> value can be extracted, and to return the rendered
  configuration otherwise. The code does otherwise when there is no secret to extract.
  In \<open>unset_baseConfig\<close> no line is a \<open>set psksecret\<close> line, yet the call returns a
  configuration, with the next line as the secret: the field pattern matches inside
  \<open>unset psksecret\<close> and runs over the line end. In \<open>vpn_baseConfig\<close> the section has no
  \<open>set psksecret\<close> line, yet the call returns a configuration with the secret of the
  VPN section.
\<close>

theorem getSlaveConfig_returns_without_secret:
  "fst (getSlaveConfig \<lparr>platform = p, baseConfig = unset_baseConfig\<rparr> g
          (Str ''10.0.0.5'') (Str ''https://cb''))
     = Inr (slave_config ''port1'' ''10.0.0.5'' ''https://cb'' ''set role master'' ''8443'')
   \<and> filter (is_set_line ''psksecret'') (lines_of unset_baseConfig) = []
   \<and> fst (getSlaveConfig \<lparr>platform = p, baseConfig = vpn_baseConfig\<rparr> g
          (Str ''10.0.0.5'') (Str ''https://cb''))
     = Inr (slave_config ''port1'' ''10.0.0.5'' ''https://cb'' ''vpnkey'' ''8443'')
   \<and> filter (is_set_line ''psksecret'') (spec_autoscale_section vpn_baseConfig) = []"
proof -
  have a0: "fst (getSlaveConfig \<lparr>platform = CloudPlatform_abstract :: (unit, unit) CloudPlatform,
                              baseConfig = unset_baseConfig\<rparr> fresh_module
                (Str ''10.0.0.5'') (Str ''https://cb''))
           = Inr (slave_config ''port1'' ''10.0.0.5'' ''https://cb'' ''set role master'' ''8443'')"
    unfolding getSlaveConfig_result by code_simp
  then have a: "fst (getSlaveConfig \<lparr>platform = p, baseConfig = unset_baseConfig\<rparr> g
                (Str ''10.0.0.5'') (Str ''https://cb''))
           = Inr (slave_config ''port1'' ''10.0.0.5'' ''https://cb'' ''set role master'' ''8443'')"
    by (simp add: getSlaveConfig_fst_cong[of "\<lparr>platform = p, baseConfig = unset_baseConfig\<rparr>"
          "\<lparr>platform = CloudPlatform_abstract :: (unit, unit) CloudPlatform,
            baseConfig = unset_baseConfig\<rparr>" g _ _ fresh_module])
  have b0: "fst (getSlaveConfig \<lparr>platform = CloudPlatform_abstract :: (unit, unit) CloudPlatform,
                              baseConfig = vpn_baseConfig\<rparr> fresh_module
                (Str ''10.0.0.5'') (Str ''https://cb''))
           = Inr (slave_config ''port1'' ''10.0.0.5'' ''https://cb'' ''vpnkey'' ''8443'')"
    unfolding getSlaveConfig_result by code_simp
  then have b: "fst (getSlaveConfig \<lparr>platform = p, baseConfig = vpn_baseConfig\<rparr> g
                (Str ''10.0.0.5'') (Str ''https://cb''))
           = Inr (slave_config ''port1'' ''10.0.0.5'' ''https://cb'' ''vpnkey'' ''8443'')"
    by (simp add: getSlaveConfig_fst_cong[of "\<lparr>platform = p, baseConfig = vpn_baseConfig\<rparr>"
          "\<lparr>platform = CloudPlatform_abstract :: (unit, unit) CloudPlatform,
            baseConfig = vpn_baseConfig\<rparr>" g _ _ fresh_module])
  have c: "filter (is_set_line ''psksecret'') (lines_of unset_baseConfig) = []"
    by code_simp
  have d: "filter (is_set_line ''psksecret'') (spec_autoscale_section vpn_baseConfig) = []"
    by code_simp
  from a b c d show ?thesis by blast
qed

theorem getSlaveConfig_returns_without_secret_witness:
  "fst (getSlaveConfig \<lparr>platform = CloudPlatform_abstract :: (unit, unit) CloudPlatform, baseConfig = unset_baseConfig\<rparr> fresh_module
          (Str ''10.0.0.5'') (Str ''https://cb''))
     = Inr (slave_config ''port1'' ''10.0.0.5'' ''https://cb'' ''set role master'' ''8443'')
   \<and> fst (getSlaveConfig \<lparr>platform = CloudPlatform_abstract :: (unit, unit) CloudPlatform, baseConfig = vpn_baseConfig\<rparr> fresh_module
          (Str ''10.0.0.5'') (Str ''https://cb''))
     = Inr (slave_config ''port1'' ''10.0.0.5'' ''https://cb'' ''vpnkey'' ''8443'')"
  using getSlaveConfig_returns_without_secret[of "CloudPlatform_abstract :: (unit, unit) CloudPlatform" fresh_module]
  by simp

text \<open>
  Claim C3: for a base configuration whose \<open>auto-scale\<close> section holds the lines
  \<open>set sync-interface port3\<close> and \<open>set psksecret abc123\<close>, the call with the master
  address \<open>10.0.0.5\<close> and the callback URL \<open>https://cb\<close> is to return a configuration
  with \<open>set psksecret abc123\<close>. The code does otherwise on two such base
  configurations. With a line \<open>unset psksecret\<close> before the two lines, the secret in
  the configuration returned is the text \<open>set sync-interface port3\<close>, and \<open>abc123\<close>
  occurs nowhere in it. With the line ends CR LF, the section pattern finds no
  section, and the call throws \<open>psksecret is missing\<close>.
\<close>

theorem getSlaveConfig_loses_section_secret:
  "spec_autoscale_section unset_first_baseConfig
     = [''    unset psksecret'', ''    set sync-interface port3'', ''    set psksecret abc123'']
   \<and> fst (getSlaveConfig \<lparr>platform = p, baseConfig = unset_first_baseConfig\<rparr> g
          (Str ''10.0.0.5'') (Str ''https://cb''))
     = Inr (slave_config ''port3'' ''10.0.0.5'' ''https://cb'' ''set sync-interface port3'' ''8443'')
   \<and> \<not> sublist ''abc123''
         (slave_config ''port3'' ''10.0.0.5'' ''https://cb'' ''set sync-interface port3'' ''8443'')
   \<and> spec_autoscale_section crlf_baseConfig
     = [''    set sync-interface port3'' @ [CHR 0x0D], ''    set psksecret abc123'' @ [CHR 0x0D]]
   \<and> map (is_set_line ''sync-interface'') (spec_autoscale_section crlf_baseConfig)
     = [True, False]
   \<and> map (is_set_line ''psksecret'') (spec_autoscale_section crlf_baseConfig)
     = [False, True]
   \<and> fst (getSlaveConfig \<lparr>platform = p, baseConfig = crlf_baseConfig\<rparr> g
          (Str ''10.0.0.5'') (Str ''https://cb''))
     = Inl (Error (''Base config is invalid (psksecret is missing): ''
              @ JSON_stringify [(''syncInterface'', Null), (''apiEndpoint'', Str ''https://cb''),
                                (''masterIp'', Str ''10.0.0.5''), (''pskSecret'', Null)]))"
proof -
  have a0: "fst (getSlaveConfig \<lparr>platform = CloudPlatform_abstract :: (unit, unit) CloudPlatform,
                              baseConfig = unset_first_baseConfig\<rparr> fresh_module
                (Str ''10.0.0.5'') (Str ''https://cb''))
           = Inr (slave_config ''port3'' ''10.0.0.5'' ''https://cb'' ''set sync-interface port3'' ''8443'')"
    unfolding getSlaveConfig_result by code_simp
  then have a: "fst (getSlaveConfig \<lparr>platform = p, baseConfig = unset_first_baseConfig\<rparr> g
                (Str ''10.0.0.5'') (Str ''https://cb''))
           = Inr (slave_config ''port3'' ''10.0.0.5'' ''https://cb'' ''set sync-interface port3'' ''8443'')"
    by (simp add: getSlaveConfig_fst_cong[of "\<lparr>platform = p, baseConfig = unset_first_baseConfig\<rparr>"
          "\<lparr>platform = CloudPlatform_abstract :: (unit, unit) CloudPlatform,
            baseConfig = unset_first_baseConfig\<rparr>" g _ _ fresh_module])
  have b0: "fst (getSlaveConfig \<lparr>platform = CloudPlatform_abstract :: (unit, unit) CloudPlatform,
                              baseConfig = crlf_baseConfig\<rparr> fresh_module
                (Str ''10.0.0.5'') (Str ''https://cb''))
           = Inl (Error (''Base config is invalid (psksecret is missing): ''
              @ JSON_stringify [(''syncInterface'', Null), (''apiEndpoint'', Str ''https://cb''),
                                (''masterIp'', Str ''10.0.0.5''), (''pskSecret'', Null)]))"
    unfolding getSlaveConfig_result by code_simp
  then have b: "fst (getSlaveConfig \<lparr>platform = p, baseConfig = crlf_baseConfig\<rparr> g
                (Str ''10.0.0.5'') (Str ''https://cb''))
           = Inl (Error (''Base config is invalid (psksecret is missing): ''
              @ JSON_stringify [(''syncInterface'', Null), (''apiEndpoint'', Str ''https://cb''),
                                (''masterIp'', Str ''10.0.0.5''), (''pskSecret'', Null)]))"
    by (simp add: getSlaveConfig_fst_cong[of "\<lparr>platform = p, baseConfig = crlf_baseConfig\<rparr>"
          "\<lparr>platform = CloudPlatform_abstract :: (unit, unit) CloudPlatform,
            baseConfig = crlf_baseConfig\<rparr>" g _ _ fresh_module])
  have c: "spec_autoscale_section unset_first_baseConfig
     = [''    unset psksecret'', ''    set sync-interface port3'', ''    set psksecret abc123'']"
    by code_simp
  have d: "\<not> sublist ''abc123''
         (slave_config ''port3'' ''10.0.0.5'' ''https://cb'' ''set sync-interface port3'' ''8443'')"
    by code_simp
  have e: "spec_autoscale_section crlf_baseConfig
     = [''    set sync-interface port3'' @ [CHR 0x0D], ''    set psksecret abc123'' @ [CHR 0x0D]]"
    by code_simp
  have f: "map (is_set_line ''sync-interface'') (spec_autoscale_section crlf_baseConfig)
     = [True, False]"
    by code_simp
  have h: "map (is_set_line ''psksecret'') (spec_autoscale_section crlf_baseConfig)
     = [False, True]"
    by code_simp
  from a b c d e f h show ?thesis by blast
qed

theorem getSlaveConfig_loses_section_secret_witness:
  "fst (getSlaveConfig \<lparr>platform = CloudPlatform_abstract :: (unit, unit) CloudPlatform, baseConfig = unset_first_baseConfig\<rparr> fresh_module
          (Str ''10.0.0.5'') (Str ''https://cb''))
     = Inr (slave_config ''port3'' ''10.0.0.5'' ''https://cb'' ''set sync-interface port3'' ''8443'')
   \<and> fst (getSlaveConfig \<lparr>platform = CloudPlatform_abstract :: (unit, unit) CloudPlatform, baseConfig = crlf_baseConfig\<rparr> fresh_module
          (Str ''10.0.0.5'') (Str ''https://cb''))
     = Inl (Error (''Base config is invalid (psksecret is missing): ''
              @ JSON_stringify [(''syncInterface'', Null), (''apiEndpoint'', Str ''https://cb''),
                                (''masterIp'', Str ''10.0.0.5''), (''pskSecret'', Null)]))"
  using getSlaveConfig_loses_section_secret[of "CloudPlatform_abstract :: (unit, unit) CloudPlatform" fresh_module]
  by simp

text \<open>
  Claim C4: when the \<open>auto-scale\<close> section has no \<open>set sync-interface\<close> line the
  configuration returned is to use \<open>port1\<close>, and \<open>8443\<close> without a \<open>set admin-sport\<close>
  line. The code does otherwise: in \<open>later_sections_baseConfig\<close> the section, as the
  specification delimits it, has neither line, and the configuration returned uses
  \<open>port5\<close> and \<open>9443\<close>, the values of the sections that follow it.
\<close>

theorem getSlaveConfig_defaults_not_used:
  "spec_autoscale_section later_sections_baseConfig
     = [''    set status enable'', ''    set psksecret abc123'']
   \<and> filter (is_set_line ''sync-interface'') (spec_autoscale_section later_sections_baseConfig)
     = []
   \<and> filter (is_set_line ''admin-sport'') (spec_autoscale_section later_sections_baseConfig)
     = []
   \<and> fst (getSlaveConfig \<lparr>platform = p, baseConfig = later_sections_baseConfig\<rparr> g
          (Str ''10.0.0.5'') (Str ''https://cb''))
     = Inr (slave_config ''port5'' ''10.0.0.5'' ''https://cb'' ''abc123'' ''9443'')"
proof -
  have a0: "fst (getSlaveConfig \<lparr>platform = CloudPlatform_abstract :: (unit, unit) CloudPlatform,
                              baseConfig = later_sections_baseConfig\<rparr> fresh_module
                (Str ''10.0.0.5'') (Str ''https://cb''))
           = Inr (slave_config ''port5'' ''10.0.0.5'' ''https://cb'' ''abc123'' ''9443'')"
    unfolding getSlaveConfig_result by code_simp
  then have a: "fst (getSlaveConfig \<lparr>platform = p, baseConfig = later_sections_baseConfig\<rparr> g
                (Str ''10.0.0.5'') (Str ''https://cb''))
           = Inr (slave_config ''port5'' ''10.0.0.5'' ''https://cb'' ''abc123'' ''9443'')"
    by (simp add: getSlaveConfig_fst_cong[of "\<lparr>platform = p, baseConfig = later_sections_baseConfig\<rparr>"
          "\<lparr>platform = CloudPlatform_abstract :: (unit, unit) CloudPlatform,
            baseConfig = later_sections_baseConfig\<rparr>" g _ _ fresh_module])
  have b: "spec_autoscale_section later_sections_baseConfig
     = [''    set status enable'', ''    set psksecret abc123'']"
    by code_simp
  have c: "filter (is_set_line ''sync-interface'')
             (spec_autoscale_section later_sections_baseConfig) = []"
    by code_simp
  have d: "filter (is_set_line ''admin-sport'')
             (spec_autoscale_section later_sections_baseConfig) = []"
    by code_simp
  from a b c d show ?thesis by blast
qed

theorem getSlaveConfig_defaults_not_used_witness:
  "fst (getSlaveConfig \<lparr>platform = CloudPlatform_abstract :: (unit, unit) CloudPlatform, baseConfig = later_sections_baseConfig\<rparr> fresh_module
          (Str ''10.0.0.5'') (Str ''https://cb''))
     = Inr (slave_config ''port5'' ''10.0.0.5'' ''https://cb'' ''abc123'' ''9443'')"
  using getSlaveConfig_defaults_not_used[of "CloudPlatform_abstract :: (unit, unit) CloudPlatform" fresh_module]
  by simp

text \<open>
  Claim C5: \<open>getMasterConfig(callbackUrl)\<close> is to put the callback URL, whatever it is,
  in the place of the placeholder. The code does otherwise for a URL with \<open>$&\<close> in it:
  in the replacement text of \<open>String.prototype.replace\<close> these two characters stand
  for the matched text, so the placeholder comes back in their place.
\<close>

theorem getMasterConfig_dollar_counterexample:
  "getMasterConfig \<lparr>platform = CloudPlatform_abstract :: (unit, unit) CloudPlatform,
                    baseConfig = ''set callback-url '' @ ''${CALLBACK_URL}'' @ ''\<newline>''\<rparr>
       (Str ''https://cb/$&'')
     = ''set callback-url '' @ ''https://cb/${CALLBACK_URL}'' @ ''\<newline>''
   \<and> ''set callback-url '' @ ''https://cb/${CALLBACK_URL}'' @ ''\<newline>''
       \<noteq> ''set callback-url '' @ ''https://cb/$&'' @ ''\<newline>''"
  by code_simp

text \<open>
  Claim C6: \<open>responseToHeartBeat(masterIp)\<close> returns the JSON text of an object. When
  \<open>masterIp\<close> is a text that is not empty, the object has the one key \<open>master-ip\<close>, and
  its value is a JSON string literal that reads back as \<open>masterIp\<close>; when \<open>masterIp\<close> is
  absent or empty, the text is \<open>{}\<close>.
\<close>

theorem responseToHeartBeat_contract:
  "(ToBoolean masterIp \<longrightarrow>
      (\<exists>s. masterIp = Str s
         \<and> responseToHeartBeat masterIp
             = ''{'' @ [CHR 0x22] @ ''master-ip'' @ [CHR 0x22] @ '':'' @ QuoteJSONString s @ ''}''
         \<and> json_string_value (QuoteJSONString s) = Some s))
   \<and> (\<not> ToBoolean masterIp \<longrightarrow> responseToHeartBeat masterIp = ''{}'')"
  by (cases masterIp)
     (simp_all add: responseToHeartBeat_def JSON_stringify_def json_string_value_QuoteJSONString,
      simp add: QuoteJSONString_def quote_code_unit_def)

theorem responseToHeartBeat_contract_witness:
  "responseToHeartBeat (Str ''10.0.0.5'')
     = ''{'' @ [CHR 0x22] @ ''master-ip'' @ [CHR 0x22] @ '':''
       @ [CHR 0x22] @ ''10.0.0.5'' @ [CHR 0x22] @ ''}''
   \<and> json_string_value ([CHR 0x22] @ ''10.0.0.5'' @ [CHR 0x22]) = Some ''10.0.0.5''
   \<and> responseToHeartBeat Undefined = ''{}''
   \<and> responseToHeartBeat Null = ''{}''
   \<and> responseToHeartBeat (Str []) = ''{}''"
proof -
  have q: "QuoteJSONString ''10.0.0.5'' = [CHR 0x22] @ ''10.0.0.5'' @ [CHR 0x22]"
    by code_simp
  from responseToHeartBeat_contract[of "Str ''10.0.0.5''"]
       responseToHeartBeat_contract[of Undefined]
       responseToHeartBeat_contract[of Null]
       responseToHeartBeat_contract[of "Str []"]
  show ?thesis
    by (simp add: q)
qed

text \<open>
  Claim C7: \<open>getSlaveConfig\<close> is deterministic. What a call returns or throws is fixed
  by the base configuration of the handler and the two arguments: the platform of the
  handler and the state that earlier calls have left in the patterns of the module
  have no influence.
\<close>

theorem getSlaveConfig_deterministic:
  "baseConfig this = baseConfig this' \<Longrightarrow>
   fst (getSlaveConfig this g masterIp callbackUrl)
     = fst (getSlaveConfig this' g' masterIp callbackUrl)"
  using autoScaleSection_lastIndex[of "baseConfig this'" "AUTOSCALE_SECTION_EXPR_lastIndex g"]
        autoScaleSection_lastIndex[of "baseConfig this'" "AUTOSCALE_SECTION_EXPR_lastIndex g'"]
  by (simp add: getSlaveConfig_def Let_def split: prod.splits)

theorem getSlaveConfig_deterministic_witness:
  "fst (getSlaveConfig example_handler fresh_module (Str ''10.0.0.5'') (Str ''https://cb''))
     = fst (getSlaveConfig
              \<lparr>platform = memory_platform :: (string \<rightharpoonup> unit, unit) CloudPlatform,
               baseConfig = example_baseConfig\<rparr>
              \<lparr>AUTOSCALE_SECTION_EXPR_lastIndex = 7, SET_SECRET_EXPR_lastIndex = 300\<rparr>
              (Str ''10.0.0.5'') (Str ''https://cb''))"
  using getSlaveConfig_deterministic[of example_handler
          "\<lparr>platform = memory_platform :: (string \<rightharpoonup> unit, unit) CloudPlatform,
            baseConfig = example_baseConfig\<rparr>"]
  by (simp add: example_handler_def)

text \<open>
  Claim C9: \<open>purgeMaster()\<close> of the base class throws the error \<open>Not Implemented\<close>,
  whatever the global scope binds; it never throws a \<open>ReferenceError\<close> for \<open>asgName\<close>,
  because the call that throws comes before the identifier is read.
\<close>

theorem purgeMaster_Not_Implemented:
  "purgeMaster env = Inl (Error ''Not Implemented'')
   \<and> (\<forall>msg. purgeMaster env \<noteq> Inl (ReferenceError msg))"
  by (simp add: purgeMaster_def js_or_def throwNotImplementedException_def)

theorem purgeMaster_Not_Implemented_witness:
  "resolve_binding Map.empty ''asgName'' = Inl (ReferenceError ''asgName is not defined'')
   \<and> purgeMaster Map.empty = Inl (Error ''Not Implemented'')"
  using purgeMaster_Not_Implemented[of Map.empty]
  by (simp add: resolve_binding_def)

text \<open>
  Claim C10: on a platform whose settings store returns, for a key, the value last
  written under that key, \<open>loadSettings()\<close> after
  \<open>saveSettings(desiredCapacity, minSize, maxSize)\<close> returns the object with exactly
  these three values.
\<close>

theorem saveSettings_loadSettings:
  assumes "\<And>store key v store'. setSettingItem (platform this) store key v = Inr store'
             \<Longrightarrow> getSettingItem (platform this) store' key = Inr (Some v)"
    and "saveSettings this store dc mn mx = Inr store'"
  shows "loadSettings this store'
           = Inr (Some \<lparr>desiredCapacity = dc, minSize = mn, maxSize = mx\<rparr>)"
  using assms by (simp add: saveSettings_def loadSettings_def)

theorem saveSettings_loadSettings_witness:
  "saveSettings \<lparr>platform = memory_platform, baseConfig = example_baseConfig\<rparr>
       Map.empty (2::int) 1 4
     = Inr [''auto-scaling-group'' \<mapsto> \<lparr>desiredCapacity = 2, minSize = 1, maxSize = 4\<rparr>]
   \<and> loadSettings \<lparr>platform = memory_platform, baseConfig = example_baseConfig\<rparr>
       [''auto-scaling-group'' \<mapsto> \<lparr>desiredCapacity = 2::int, minSize = 1, maxSize = 4\<rparr>]
     = Inr (Some \<lparr>desiredCapacity = 2, minSize = 1, maxSize = 4\<rparr>)"
proof -
  let ?h = "\<lparr>platform = memory_platform, baseConfig = example_baseConfig\<rparr>
              :: (string \<rightharpoonup> int settingValues, int settingValues) AutoscaleHandler"
  have law: "\<And>store key v store'. setSettingItem (platform ?h) store key v = Inr store'
               \<Longrightarrow> getSettingItem (platform ?h) store' key = Inr (Some v)"
    by (auto simp: memory_platform_def)
  have s: "saveSettings ?h Map.empty 2 1 4
             = Inr [''auto-scaling-group'' \<mapsto> \<lparr>desiredCapacity = 2, minSize = 1, maxSize = 4\<rparr>]"
    by (simp add: saveSettings_def memory_platform_def)
  from saveSettings_loadSettings[OF law s] s show ?thesis by simp
qed

end
